theory Spec2Isabelle
  imports Complex_Main "HOL-Library.Multiset"
begin

section \<open>Values and errors\<close>

text \<open>
  The program computes with numpy float64 values.  They are modelled in exact arithmetic:
  a value is a finite real, one of the two infinities, or NaN (the "no data" marker).
  Rounding and signed zeros are not modelled.
\<close>

datatype fval = Fin real | PInf | NInf | NaN

datatype error = KeyError | ValueError | IndexError | OverflowError

fun isnan :: "fval \<Rightarrow> bool" where
  "isnan NaN = True"
| "isnan _ = False"

fun isfinite :: "fval \<Rightarrow> bool" where
  "isfinite (Fin _) = True"
| "isfinite _ = False"

text \<open>The sign of an infinity obtained from a non-zero finite value.\<close>

definition inf_of_sign :: "real \<Rightarrow> fval" where
  "inf_of_sign a = (if 0 < a then PInf else NInf)"

fun fneg :: "fval \<Rightarrow> fval" where
  "fneg (Fin a) = Fin (- a)"
| "fneg PInf = NInf"
| "fneg NInf = PInf"
| "fneg NaN = NaN"

fun fadd :: "fval \<Rightarrow> fval \<Rightarrow> fval" where
  "fadd (Fin a) (Fin b) = Fin (a + b)"
| "fadd NaN _ = NaN"
| "fadd _ NaN = NaN"
| "fadd PInf NInf = NaN"
| "fadd NInf PInf = NaN"
| "fadd PInf _ = PInf"
| "fadd NInf _ = NInf"
| "fadd _ PInf = PInf"
| "fadd _ NInf = NInf"

fun fmul :: "fval \<Rightarrow> fval \<Rightarrow> fval" where
  "fmul (Fin a) (Fin b) = Fin (a * b)"
| "fmul NaN _ = NaN"
| "fmul _ NaN = NaN"
| "fmul (Fin a) PInf = (if a = 0 then NaN else inf_of_sign a)"
| "fmul (Fin a) NInf = (if a = 0 then NaN else inf_of_sign (- a))"
| "fmul PInf (Fin b) = (if b = 0 then NaN else inf_of_sign b)"
| "fmul NInf (Fin b) = (if b = 0 then NaN else inf_of_sign (- b))"
| "fmul PInf PInf = PInf"
| "fmul NInf NInf = PInf"
| "fmul PInf NInf = NInf"
| "fmul NInf PInf = NInf"

text \<open>
  numpy division of float64 scalars never raises: a non-zero value over zero is an
  infinity, zero over zero is NaN (a warning is printed, execution goes on).
\<close>

fun fdiv :: "fval \<Rightarrow> fval \<Rightarrow> fval" where
  "fdiv (Fin a) (Fin b) =
     (if b = 0 then (if a = 0 then NaN else inf_of_sign a) else Fin (a / b))"
| "fdiv NaN _ = NaN"
| "fdiv _ NaN = NaN"
| "fdiv (Fin a) PInf = Fin 0"
| "fdiv (Fin a) NInf = Fin 0"
| "fdiv PInf (Fin b) = (if 0 \<le> b then PInf else NInf)"
| "fdiv NInf (Fin b) = (if 0 \<le> b then NInf else PInf)"
| "fdiv PInf PInf = NaN"
| "fdiv PInf NInf = NaN"
| "fdiv NInf PInf = NaN"
| "fdiv NInf NInf = NaN"

text \<open>\<open>==\<close> on floats: NaN is equal to nothing, itself included.\<close>

fun feq :: "fval \<Rightarrow> fval \<Rightarrow> bool" where
  "feq NaN _ = False"
| "feq _ NaN = False"
| "feq a b = (a = b)"

section \<open>Tables\<close>

text \<open>
  A pandas DataFrame or Series with string labels is an association list from the label
  to the column (or cell), in the table's own order.
\<close>

type_synonym 'a table = "(string \<times> 'a) list"

definition lookup :: "'a table \<Rightarrow> string \<Rightarrow> error + 'a" where
  "lookup t k = (case map_of t k of None \<Rightarrow> Inl KeyError | Some v \<Rightarrow> Inr v)"

text \<open>\<open>t[k] = v\<close>: an existing column is replaced where it stands, a new one is appended.\<close>

fun assign :: "'a table \<Rightarrow> string \<Rightarrow> 'a \<Rightarrow> 'a table" where
  "assign [] k v = [(k, v)]"
| "assign ((k', v') # t) k v = (if k' = k then (k, v) # t else (k', v') # assign t k v)"

section \<open>Onset index\<close>

text \<open>
  \<open>raw.ge(p1)\<close> compares every cell with \<open>p1\<close>; \<open>idxmax\<close> returns the first
  index holding the maximum of a column, and raises on an empty column.
\<close>

definition ge :: "real list \<Rightarrow> real \<Rightarrow> bool list" where
  "ge col p1 = map (\<lambda>v. p1 \<le> v) col"

fun idxmax_from :: "'a::linorder \<Rightarrow> nat \<Rightarrow> nat \<Rightarrow> 'a list \<Rightarrow> nat" where
  "idxmax_from best ibest i [] = ibest"
| "idxmax_from best ibest i (v # vs) =
     (if best < v then idxmax_from v i (Suc i) vs else idxmax_from best ibest (Suc i) vs)"

definition idxmax :: "'a::linorder list \<Rightarrow> error + nat" where
  "idxmax col = (case col of [] \<Rightarrow> Inl ValueError | v # vs \<Rightarrow> Inr (idxmax_from v 0 1 vs))"

definition ebind :: "error + 'a \<Rightarrow> ('a \<Rightarrow> error + 'b) \<Rightarrow> error + 'b" where
  "ebind m f = (case m of Inl e \<Rightarrow> Inl e | Inr v \<Rightarrow> f v)"

text \<open>\<open>inicio = raw.ge(p1).idxmax()\<close>, column by column.\<close>

fun inicio_of :: "real list table \<Rightarrow> real \<Rightarrow> error + nat table" where
  "inicio_of [] p1 = Inr []"
| "inicio_of ((k, col) # t) p1 =
     ebind (idxmax (ge col p1)) (\<lambda>i.
     ebind (inicio_of t p1) (\<lambda>r. Inr ((k, i) # r)))"

section \<open>preparar\_dados\<close>

text \<open>
  The three tables read from the network are parameters: \<open>raw\<close> (daily deaths per
  country, missing cells already filled with 0, the date column dropped), \<open>popu\<close>
  (the population per country, under the renamed index) and \<open>sp\<close> (the rows of
  the state's table, most recent first).  A missing cell of \<open>sp\<close> is \<open>None\<close>.
\<close>

record sp_row =
  place_type :: string
  city :: string
  deaths :: "real option"
  estimated_population_2019 :: "real option"

definition Sao_Paulo :: string where
  "Sao_Paulo = ''S'' @ [CHR 0xC3, CHR 0xA3] @ ''o Paulo''"

definition fillna :: "real option \<Rightarrow> real" where
  "fillna v = (case v of None \<Rightarrow> 0 | Some r \<Rightarrow> r)"

text \<open>\<open>[S[i] - S[i+1] for i in range(len(S)-1)]\<close>\<close>

fun diffs :: "real list \<Rightarrow> real list" where
  "diffs (a # b # xs) = (a - b) # diffs (b # xs)"
| "diffs _ = []"

text \<open>\<open>Series.max()\<close> skips missing cells and is NaN when nothing is left.\<close>

definition col_max :: "real option list \<Rightarrow> fval" where
  "col_max c = (case List.map_filter (\<lambda>v. v) c of [] \<Rightarrow> NaN | v # vs \<Rightarrow> Fin (fold max vs v))"

text \<open>
  Assigning an array as a column of a table with \<open>nbr\<close> rows raises ValueError when the
  lengths differ.
\<close>

definition set_col :: "nat \<Rightarrow> 'a list table \<Rightarrow> string \<Rightarrow> 'a list \<Rightarrow> error + 'a list table" where
  "set_col n t k vs = (if length vs = n then Inr (assign t k vs) else Inl ValueError)"

text \<open>The daily series of a cut of \<open>sp\<close>, from its cumulative deaths (lines 103 to 105).\<close>

definition cut_diario :: "nat \<Rightarrow> sp_row list \<Rightarrow> real list" where
  "cut_diario n rows = rev (diffs (map fillna (take (n + 1) (map deaths rows))))"

text \<open>The loop of lines 122 to 127 over \<open>inicio.keys()\<close>.\<close>

fun add_paises ::
  "real list table \<Rightarrow> real table \<Rightarrow> nat table \<Rightarrow> nat \<Rightarrow> nat \<Rightarrow> string list \<Rightarrow>
   real list table \<Rightarrow> error + real list table" where
  "add_paises raw popu inicio iBR n [] dat = Inr dat"
| "add_paises raw popu inicio iBR n (k # ks) dat =
     (if k = ''Brazil'' then add_paises raw popu inicio iBR n ks dat
      else if k \<notin> fst ` set popu then add_paises raw popu inicio iBR n ks dat
      else ebind (lookup inicio k) (\<lambda>i.
        if i = 0 \<or> iBR < i then add_paises raw popu inicio iBR n ks dat
        else ebind (lookup raw k) (\<lambda>col.
             ebind (set_col n dat k (take n (drop i col))) (\<lambda>dat'.
             add_paises raw popu inicio iBR n ks dat'))))"

text \<open>\<open>data[c].values * (10**5) / popuBR[c]\<close>\<close>

definition por100k_of :: "real list table \<Rightarrow> fval table \<Rightarrow> string \<Rightarrow> error + fval list" where
  "por100k_of dat popuBR c =
     ebind (lookup dat c) (\<lambda>col.
     ebind (lookup popuBR c) (\<lambda>pop.
     Inr (map (\<lambda>v. fdiv (Fin (v * 10 ^ 5)) pop) col)))"

record prepared =
  raw_t :: "real list table"
  inicio_t :: "nat table"
  data_t :: "real list table"
  nbr_t :: nat
  popu_t :: "real table"
  popuBR_t :: "fval table"
  por100k_t :: "fval list table"

definition preparar_dados ::
  "real list table \<Rightarrow> real table \<Rightarrow> sp_row list \<Rightarrow> real \<Rightarrow> real \<Rightarrow> error + prepared" where
  "preparar_dados raw popu sp p1 p4 =
     ebind (inicio_of raw p1) (\<lambda>inicio.
     ebind (lookup raw ''Brazil'') (\<lambda>br.
     ebind (lookup inicio ''Brazil'') (\<lambda>iBR.
     let dat0 = [(''Brazil'', map (\<lambda>v. v * p4) (drop iBR br))];
         n = length (drop iBR br);
         sp_estado = filter (\<lambda>r. place_type r = ''state'') sp;
         SP_estado = cut_diario n sp_estado;
         SP_estado_popu = col_max (map estimated_population_2019 sp_estado)
     in ebind (set_col n dat0 ''SP'' (map (\<lambda>v. v * p4) SP_estado)) (\<lambda>dat1.
     let sp_city = filter (\<lambda>r. city r = Sao_Paulo) sp;
         SP_city = cut_diario n sp_city;
         SP_city_popu = col_max (map estimated_population_2019 sp_city)
     in ebind (set_col n dat1 ''SP_City'' (map (\<lambda>v. v * p4) SP_city)) (\<lambda>dat2.
     ebind (lookup dat2 ''Brazil'') (\<lambda>dbr.
     let br_ex_sp = map (\<lambda>x. fst x - snd x) (zip dbr SP_estado)
     in ebind (set_col n dat2 ''Brazil_sem_SP'' br_ex_sp) (\<lambda>dat3.
     ebind (add_paises raw popu inicio iBR n (map fst inicio) dat3) (\<lambda>dat.
     ebind (lookup popu ''Brazil'') (\<lambda>popBrazil.
     let popuBR = [(''Brazil'', Fin popBrazil), (''SP'', SP_estado_popu),
                   (''SP_City'', SP_city_popu),
                   (''Brazil_sem_SP'', fadd (Fin popBrazil) (fneg SP_estado_popu))]
     in ebind (por100k_of dat popuBR ''Brazil'') (\<lambda>k1.
        ebind (por100k_of dat popuBR ''SP'') (\<lambda>k2.
        ebind (por100k_of dat popuBR ''SP_City'') (\<lambda>k3.
        ebind (por100k_of dat popuBR ''Brazil_sem_SP'') (\<lambda>k4.
        Inr \<lparr>raw_t = raw, inicio_t = inicio, data_t = dat, nbr_t = n, popu_t = popu,
             popuBR_t = popuBR,
             por100k_t = [(''Brazil'', k1), (''SP'', k2), (''SP_City'', k3),
                          (''Brazil_sem_SP'', k4)]\<rparr>)))))))))))))"

section \<open>rodar\_modelo\<close>

subsection \<open>Correlation and selection\<close>

text \<open>
  \<open>data.corr()\<close> is pandas' Pearson coefficient.  The columns of \<open>data\<close> hold no
  missing cell, so every row takes part.  The coefficient is NaN when the table has no
  row or when one of the two columns is constant.
\<close>

definition mean :: "real list \<Rightarrow> real" where
  "mean xs = sum_list xs / real (length xs)"

definition corr :: "real list \<Rightarrow> real list \<Rightarrow> fval" where
  "corr xs ys =
     (if length xs < 1 then NaN
      else let meanx = mean xs; meany = mean ys;
               sumx = sum_list (map (\<lambda>p. (fst p - meanx) * (snd p - meany)) (zip xs ys));
               sumxx = sum_list (map (\<lambda>x. (x - meanx) * (x - meanx)) xs);
               sumyy = sum_list (map (\<lambda>y. (y - meany) * (y - meany)) ys);
               divisor = sqrt (sumxx * sumyy)
           in if divisor \<noteq> 0 then Fin (sumx / divisor) else NaN)"

text \<open>\<open>pearson[ref]\<close>: the column of the correlation matrix under \<open>ref\<close>.\<close>

definition pearson_ref :: "real list table \<Rightarrow> string \<Rightarrow> error + fval table" where
  "pearson_ref dat ref =
     ebind (lookup dat ref) (\<lambda>rcol. Inr (map (\<lambda>kc. (fst kc, corr (snd kc) rcol)) dat))"

text \<open>The order of floats, for values that are not NaN.\<close>

fun fle :: "fval \<Rightarrow> fval \<Rightarrow> bool" where
  "fle (Fin a) (Fin b) = (a \<le> b)"
| "fle NInf _ = True"
| "fle _ PInf = True"
| "fle _ _ = False"

text \<open>
  \<open>sort_values(ascending=False)\<close>: the cells that are not NaN come first, in descending
  order, equal cells keeping the order of the table (the sort is stable); the NaN cells
  follow, in the order of the table.
\<close>

fun insort_desc :: "string \<times> fval \<Rightarrow> fval table \<Rightarrow> fval table" where
  "insort_desc x [] = [x]"
| "insort_desc x (y # ys) = (if fle (snd y) (snd x) then x # y # ys else y # insort_desc x ys)"

definition sort_values_desc :: "fval table \<Rightarrow> fval table" where
  "sort_values_desc s =
     foldr insort_desc (filter (\<lambda>kv. \<not> isnan (snd kv)) s) []
     @ filter (\<lambda>kv. isnan (snd kv)) s"

text \<open>The slice \<open>xs[:n]\<close> of Python, \<open>n\<close> of either sign.\<close>

definition py_take :: "int \<Rightarrow> 'a list \<Rightarrow> 'a list" where
  "py_take n xs = (if 0 \<le> n then take (nat n) xs else take (nat (int (length xs) + n)) xs)"

definition out :: "string list" where
  "out = [''Brazil'', ''Brazil_sem_SP'', ''SP'', ''SP_City'']"

definition correlacionados_of :: "fval table \<Rightarrow> int \<Rightarrow> string list" where
  "correlacionados_of pearson p2 =
     py_take p2 (filter (\<lambda>k. k \<notin> set out) (map fst (sort_values_desc pearson)))"

subsection \<open>The calibrated table\<close>

text \<open>The number of rows of a table (\<open>shape[0]\<close>); the columns of a table are equally long.\<close>

definition nrows :: "'a list table \<Rightarrow> nat" where
  "nrows t = (case t of [] \<Rightarrow> 0 | kc # _ \<Rightarrow> length (snd kc))"

definition pad :: "nat \<Rightarrow> fval list \<Rightarrow> fval list" where
  "pad n col = col @ replicate (n - length col) NaN"

text \<open>\<open>pd.concat([t, additional], axis=1)\<close>: the shorter side is filled with NaN.\<close>

definition concat_col :: "fval list table \<Rightarrow> string \<Rightarrow> fval list \<Rightarrow> fval list table" where
  "concat_col t k col =
     (let n = max (nrows t) (length col)
      in map (\<lambda>kc. (fst kc, pad n (snd kc))) (t @ [(k, col)]))"

text \<open>The loop of lines 199 to 207.\<close>

fun add_correlacionados ::
  "real list table \<Rightarrow> nat table \<Rightarrow> real table \<Rightarrow> string list \<Rightarrow> fval list table \<Rightarrow>
   error + fval list table" where
  "add_correlacionados raw inicio popu [] cal = Inr cal"
| "add_correlacionados raw inicio popu (k # ks) cal =
     ebind (lookup raw k) (\<lambda>col.
     ebind (lookup inicio k) (\<lambda>i.
     let C = drop i col
     in if k = ''China''
        then add_correlacionados raw inicio popu ks
               (concat_col cal k (map (\<lambda>v. fdiv (Fin (v * 10 ^ 5)) (Fin 15000000)) C))
        else ebind (lookup popu k) (\<lambda>pop.
             add_correlacionados raw inicio popu ks
               (concat_col cal k (map (\<lambda>v. fdiv (Fin (v * 10 ^ 5)) (Fin pop)) C)))))"

text \<open>
  \<open>rolling(p3).mean()\<close>: the mean of the \<open>p3\<close> cells ending at each position; NaN while
  fewer than \<open>p3\<close> cells are there, and NaN when the window holds a cell that is not finite.
\<close>

fun the_fin :: "fval \<Rightarrow> real" where
  "the_fin (Fin r) = r"
| "the_fin _ = 0"

definition window_mean :: "nat \<Rightarrow> fval list \<Rightarrow> fval" where
  "window_mean p3 w =
     (if list_all isfinite w then fdiv (Fin (sum_list (map the_fin w))) (Fin (real p3)) else NaN)"

definition rolling_mean :: "nat \<Rightarrow> fval list \<Rightarrow> fval list" where
  "rolling_mean p3 col =
     map (\<lambda>i. if i + 1 < p3 then NaN else window_mean p3 (take p3 (drop (i + 1 - p3) col)))
       [0..<length col]"

definition rolling_table :: "nat \<Rightarrow> fval list table \<Rightarrow> fval list table" where
  "rolling_table p3 t = map (\<lambda>kc. (fst kc, rolling_mean p3 (snd kc))) t"

subsection \<open>Weights\<close>

text \<open>Python's \<open>sum\<close> starts from the integer 0 and adds from the left.\<close>

definition py_sum :: "fval list \<Rightarrow> fval" where
  "py_sum ws = foldl fadd (Fin 0) ws"

definition normalizar :: "fval list \<Rightarrow> fval list" where
  "normalizar pesos = map (\<lambda>i. fdiv (pesos ! i) (py_sum pesos)) [0..<length pesos]"

fun lookups :: "'a table \<Rightarrow> string list \<Rightarrow> error + 'a list" where
  "lookups t [] = Inr []"
| "lookups t (c # cs) = ebind (lookup t c) (\<lambda>v. ebind (lookups t cs) (\<lambda>vs. Inr (v # vs)))"

definition pesos_of :: "fval table \<Rightarrow> string list \<Rightarrow> error + fval table" where
  "pesos_of pearson correlacionados =
     ebind (lookups pearson correlacionados) (\<lambda>pesos.
     Inr (zip correlacionados (normalizar pesos)))"

subsection \<open>Projection\<close>

text \<open>A cell of a column by its row label; a label that is not there raises KeyError.\<close>

definition cell :: "'a list \<Rightarrow> nat \<Rightarrow> error + 'a" where
  "cell col i = (if i < length col then Inr (col ! i) else Inl KeyError)"

text \<open>The inner loop of lines 229 to 235: the increment of day \<open>d\<close>.\<close>

fun incremento ::
  "fval list table \<Rightarrow> fval table \<Rightarrow> nat \<Rightarrow> fval \<Rightarrow> string list \<Rightarrow> error + fval" where
  "incremento cal pesos d x [] = Inr x"
| "incremento cal pesos d x (c # cs) =
     ebind (lookup cal c) (\<lambda>col.
     ebind (cell col d) (\<lambda>vd.
     if \<not> isnan vd
     then ebind (cell col (d - 1)) (\<lambda>vp.
          ebind (lookup pesos c) (\<lambda>w.
          incremento cal pesos d (fadd x (fmul (fdiv vd vp) w)) cs))
     else ebind (lookup pesos c) (\<lambda>w.
          incremento cal pesos d (fadd x (fmul (Fin 1) w)) cs)))"

text \<open>The outer loop of lines 227 to 238, over the days \<open>ds\<close>.\<close>

fun projetar ::
  "fval list table \<Rightarrow> fval table \<Rightarrow> string list \<Rightarrow> fval list \<Rightarrow> nat list \<Rightarrow> error + fval list" where
  "projetar cal pesos cs proj [] = Inr proj"
| "projetar cal pesos cs proj (d # ds) =
     ebind (incremento cal pesos d (Fin 0) cs) (\<lambda>x.
     projetar cal pesos cs (proj @ [fmul (last proj) x]) ds)"

text \<open>
  Lines 222 and 223: \<open>nbr\<close> cells of NaN, the last one replaced by the calibrated value of
  the reference at \<open>nbr - 1\<close>.  With \<open>nbr = 0\<close> the label \<open>-1\<close> is looked up and is not there.
\<close>

definition proj_inicial :: "fval list table \<Rightarrow> string \<Rightarrow> nat \<Rightarrow> error + fval list" where
  "proj_inicial cal ref n =
     ebind (lookup cal ref) (\<lambda>rcol.
     if n = 0 then Inl KeyError
     else ebind (cell rcol (n - 1)) (\<lambda>v. Inr ((replicate n NaN)[n - 1 := v])))"

subsection \<open>Summary\<close>

definition DBL_MAX :: real where
  "DBL_MAX = (2 - 1 / 2 ^ 52) * 2 ^ 1023"

text \<open>\<open>np.nan_to_num\<close>: NaN becomes 0, an infinity the largest float of its sign.\<close>

fun nan_to_num :: "fval \<Rightarrow> real" where
  "nan_to_num (Fin r) = r"
| "nan_to_num NaN = 0"
| "nan_to_num PInf = DBL_MAX"
| "nan_to_num NInf = - DBL_MAX"

text \<open>The maximum of an array; numpy raises on an empty one.\<close>

definition array_max :: "real list \<Rightarrow> error + real" where
  "array_max xs = (case xs of [] \<Rightarrow> Inl ValueError | v # vs \<Rightarrow> Inr (fold max vs v))"

text \<open>\<open>list.index\<close>: the first position whose cell is equal (\<open>==\<close>) to the value.\<close>

fun list_index :: "fval list \<Rightarrow> fval \<Rightarrow> error + nat" where
  "list_index [] v = Inl ValueError"
| "list_index (a # as) v = (if feq a v then Inr 0 else ebind (list_index as v) (\<lambda>i. Inr (Suc i)))"

text \<open>\<open>int\<close> of a float cuts the fraction off, and raises on NaN and on an infinity.\<close>

definition trunc :: "real \<Rightarrow> int" where
  "trunc r = (if 0 \<le> r then \<lfloor>r\<rfloor> else \<lceil>r\<rceil>)"

fun py_int :: "fval \<Rightarrow> error + int" where
  "py_int (Fin r) = Inr (trunc r)"
| "py_int NaN = Inl ValueError"
| "py_int _ = Inl OverflowError"

text \<open>
  The summary of lines 245 to 257.  The string of the number of deaths is modelled by the
  number, the date string by the ordinal of its day; \<open>now\<close> is the ordinal of the day
  the clock shows when the function runs.
\<close>

record infos =
  mortes_no_pico :: int
  dia_do_pico :: int
  pico :: real
  index :: nat

definition infos_of :: "fval list \<Rightarrow> fval table \<Rightarrow> string \<Rightarrow> nat \<Rightarrow> int \<Rightarrow> error + infos" where
  "infos_of proj popuBR ref n now =
     ebind (array_max (map nan_to_num proj)) (\<lambda>pk.
     ebind (lookup popuBR ref) (\<lambda>pop.
     ebind (py_int (fdiv (fmul (Fin pk) pop) (Fin 100000))) (\<lambda>mortes.
     ebind (list_index proj (Fin pk)) (\<lambda>ix_do_pico.
     Inr \<lparr>mortes_no_pico = mortes, dia_do_pico = now + (int ix_do_pico - int n),
          pico = pk, index = ix_do_pico\<rparr>))))"

subsection \<open>The whole function\<close>

text \<open>
  The function returns its four results, kept in a record.  The count \<open>p2\<close> is a
  Python integer of either sign, the window \<open>p3\<close> a natural number (pandas refuses a
  negative window before anything is computed).  The stages follow the order of the
  source: the correlation column, the comparators, the calibrated table, the weights, the
  projected series, the summary.
\<close>

record modelo =
  correlacionados_r :: "string list"
  calibrados_r :: "fval list table"
  projetado_r :: "fval list"
  infos_r :: infos

definition calibrados_of ::
  "real list table \<Rightarrow> nat table \<Rightarrow> real table \<Rightarrow> fval list table \<Rightarrow> string list \<Rightarrow>
   nat \<Rightarrow> string \<Rightarrow> error + fval list table" where
  "calibrados_of raw inicio popu por100k cs p3 ref =
     ebind (lookup por100k ref) (\<lambda>rcol.
     ebind (add_correlacionados raw inicio popu cs [(ref, rcol)]) (\<lambda>cal.
     Inr (rolling_table p3 cal)))"

definition proj_of ::
  "fval list table \<Rightarrow> fval table \<Rightarrow> string list \<Rightarrow> string \<Rightarrow> nat \<Rightarrow> error + fval list" where
  "proj_of cal pesos cs ref n =
     ebind (proj_inicial cal ref n) (\<lambda>proj.
     projetar cal pesos cs proj [n..<nrows cal])"

definition rodar_modelo ::
  "real list table \<Rightarrow> nat table \<Rightarrow> real list table \<Rightarrow> nat \<Rightarrow> real table \<Rightarrow> fval table \<Rightarrow>
   fval list table \<Rightarrow> int \<Rightarrow> nat \<Rightarrow> string \<Rightarrow> int \<Rightarrow> error + modelo" where
  "rodar_modelo raw inicio dat n popu popuBR por100k p2 p3 ref now =
     ebind (pearson_ref dat ref) (\<lambda>pearson.
     let cs = correlacionados_of pearson p2
     in ebind (calibrados_of raw inicio popu por100k cs p3 ref) (\<lambda>cal.
        ebind (pesos_of pearson cs) (\<lambda>pesos.
        ebind (proj_of cal pesos cs ref n) (\<lambda>proj.
        ebind (infos_of proj popuBR ref n now) (\<lambda>info.
        Inr \<lparr>correlacionados_r = cs, calibrados_r = cal, projetado_r = proj,
             infos_r = info\<rparr>)))))"

text \<open>The run at the end of the file: both functions, one after the other.\<close>

definition pipeline ::
  "real list table \<Rightarrow> real table \<Rightarrow> sp_row list \<Rightarrow> real \<Rightarrow> int \<Rightarrow> nat \<Rightarrow> real \<Rightarrow> string \<Rightarrow>
   int \<Rightarrow> error + prepared \<times> modelo" where
  "pipeline raw popu sp p1 p2 p3 p4 ref now =
     ebind (preparar_dados raw popu sp p1 p4) (\<lambda>pr.
     ebind (rodar_modelo (raw_t pr) (inicio_t pr) (data_t pr) (nbr_t pr) (popu_t pr)
              (popuBR_t pr) (por100k_t pr) p2 p3 ref now) (\<lambda>m.
     Inr (pr, m)))"

section \<open>Reference notions and example inputs\<close>

text \<open>
  The first position of a column whose daily value is at least \<open>p1\<close>, and 0 when no
  value is.
\<close>

definition onset :: "real list \<Rightarrow> real \<Rightarrow> nat" where
  "onset col p1 = (if \<exists>v\<in>set col. p1 \<le> v then length (takeWhile (\<lambda>v. v < p1) col) else 0)"

text \<open>
  The onset as the specification words it: the first day at which the cumulative count
  of the column reaches \<open>p1\<close>.
\<close>

definition onset_cumulative :: "real list \<Rightarrow> real \<Rightarrow> nat option" where
  "onset_cumulative col p1 = List.find (\<lambda>i. p1 \<le> sum_list (take (Suc i) col)) [0..<length col]"

text \<open>A small input: four days of data, Brazil reaching three deaths on the third day.\<close>

definition ex_raw :: "real list table" where
  "ex_raw = [(''Brazil'', [0, 0, 3, 4]), (''Italy'', [0, 3, 5, 10]), (''Spain'', [4, 3, 2, 1]),
             (''Chile'', [0, 0, 0, 1])]"

definition ex_popu :: "real table" where
  "ex_popu = [(''Brazil'', 200), (''Italy'', 60), (''Spain'', 50), (''Chile'', 20)]"

definition ex_sp :: "sp_row list" where
  "ex_sp = [\<lparr>place_type = ''state'', city = '''', deaths = Some 3, estimated_population_2019 = Some 40\<rparr>,
            \<lparr>place_type = ''city'', city = Sao_Paulo, deaths = Some 2, estimated_population_2019 = Some 10\<rparr>,
            \<lparr>place_type = ''state'', city = '''', deaths = Some 1, estimated_population_2019 = Some 40\<rparr>,
            \<lparr>place_type = ''city'', city = Sao_Paulo, deaths = Some 1, estimated_population_2019 = Some 10\<rparr>,
            \<lparr>place_type = ''state'', city = '''', deaths = None, estimated_population_2019 = Some 40\<rparr>,
            \<lparr>place_type = ''city'', city = Sao_Paulo, deaths = None, estimated_population_2019 = Some 10\<rparr>]"

definition ex_pr :: prepared where
  "ex_pr = \<lparr>raw_t = ex_raw,
        inicio_t = [(''Brazil'', 2), (''Italy'', 1), (''Spain'', 0), (''Chile'', 0)],
        data_t = [(''Brazil'', [6, 8]), (''SP'', [2, 4]), (''SP_City'', [2, 2]),
           (''Brazil_sem_SP'', [5, 6]), (''Italy'', [3, 5])],
        nbr_t = 2,
        popu_t = ex_popu,
        popuBR_t = [(''Brazil'', Fin 200), (''SP'', Fin 40), (''SP_City'', Fin 10),
           (''Brazil_sem_SP'', Fin 160)],
        por100k_t = [(''Brazil'', [Fin 3000, Fin 4000]), (''SP'', [Fin 5000, Fin 10000]),
           (''SP_City'', [Fin 20000, Fin 20000]), (''Brazil_sem_SP'', [Fin 3125, Fin 3750])]\<rparr>"

definition ex_pearson_t :: "fval table" where
  "ex_pearson_t = [(''Brazil'', Fin 1), (''SP'', Fin 1), (''SP_City'', NaN),
                   (''Brazil_sem_SP'', Fin 1), (''Italy'', Fin 1)]"

definition ex_cal :: "fval list table" where
  "ex_cal = [(''SP'', [NaN, Fin 7500, NaN]), (''Italy'', [NaN, Fin (20000 / 3), Fin 12500])]"

definition ex_m :: "int \<Rightarrow> modelo" where
  "ex_m now = \<lparr>correlacionados_r = [''Italy''], calibrados_r = ex_cal,
               projetado_r = [NaN, Fin 7500, Fin (28125 / 2)],
               infos_r = \<lparr>mortes_no_pico = 5, dia_do_pico = now, pico = (28125 / 2), index = 2\<rparr>\<rparr>"

text \<open>The same input under a window of three days, longer than the two days of Brazil.\<close>

definition ex_cal3 :: "fval list table" where
  "ex_cal3 = [(''SP'', [NaN, NaN, NaN]), (''Italy'', [NaN, NaN, Fin 10000])]"

text \<open>A calibrated table with one comparator that goes on and one whose data have ended.\<close>

definition ex3_cal :: "fval list table" where
  "ex3_cal = [(''SP'', [Fin 2, NaN]), (''Italy'', [Fin 1, Fin 2]), (''China'', [Fin 1, NaN])]"

definition ex3_pesos :: "fval table" where
  "ex3_pesos = [(''Italy'', Fin (3 / 4)), (''China'', Fin (1 / 4))]"

definition ex3_col :: "string \<Rightarrow> fval list" where
  "ex3_col c = (if c = ''Italy'' then [Fin 1, Fin 2] else [Fin 1, NaN])"

definition ex3_w :: "string \<Rightarrow> fval" where
  "ex3_w c = (if c = ''Italy'' then Fin (3 / 4) else Fin (1 / 4))"

text \<open>An input on which Brazil never reaches three deaths in a day.\<close>

definition ex4_raw :: "real list table" where
  "ex4_raw = [(''Brazil'', [1, 2]), (''Italy'', [0, 3])]"

definition ex4_pr :: prepared where
  "ex4_pr = \<lparr>raw_t = ex4_raw,
        inicio_t = [(''Brazil'', 0), (''Italy'', 1)],
        data_t = [(''Brazil'', [2, 4]), (''SP'', [2, 4]), (''SP_City'', [2, 2]),
           (''Brazil_sem_SP'', [1, 2])],
        nbr_t = 2,
        popu_t = ex_popu,
        popuBR_t = [(''Brazil'', Fin 200), (''SP'', Fin 40), (''SP_City'', Fin 10),
           (''Brazil_sem_SP'', Fin 160)],
        por100k_t = [(''Brazil'', [Fin 1000, Fin 2000]), (''SP'', [Fin 5000, Fin 10000]),
           (''SP_City'', [Fin 20000, Fin 20000]), (''Brazil_sem_SP'', [Fin 625, Fin 1250])]\<rparr>"

definition ex4_m :: "int \<Rightarrow> modelo" where
  "ex4_m now = \<lparr>correlacionados_r = [], calibrados_r = [(''SP'', [Fin 5000, Fin 10000])],
               projetado_r = [NaN, Fin 10000],
               infos_r = \<lparr>mortes_no_pico = 4, dia_do_pico = now - 1, pico = 10000, index = 1\<rparr>\<rparr>"

text \<open>A table with a comparator that runs against the reference.\<close>

definition ex6_dat :: "real list table" where
  "ex6_dat = [(''SP'', [2, 4]), (''Italy'', [3, 5]), (''Spain'', [4, 6]), (''Iran'', [5, 3])]"

definition ex6_pearson :: "fval table" where
  "ex6_pearson = [(''SP'', Fin 1), (''Italy'', Fin 1), (''Spain'', Fin 1), (''Iran'', Fin (- 1))]"

text \<open>The regions of \<open>data\<close> outside the four cuts of \<open>out\<close>, in table order.\<close>

definition elegiveis :: "real list table \<Rightarrow> string list" where
  "elegiveis dat = filter (\<lambda>k. k \<notin> set out) (map fst dat)"

text \<open>
  The coefficient of a region in \<open>pearson[ref]\<close>, and the order of a descending sort
  that puts NaN last: \<open>desc a b\<close> says that \<open>a\<close> may stand before \<open>b\<close>.
\<close>

definition coef :: "fval table \<Rightarrow> string \<Rightarrow> fval" where
  "coef pearson k = (case map_of pearson k of None \<Rightarrow> NaN | Some v \<Rightarrow> v)"

definition desc :: "fval \<Rightarrow> fval \<Rightarrow> bool" where
  "desc a b = (isnan b \<or> (\<not> isnan a \<and> fle b a))"

text \<open>
  The peak index as the specification words it: the first index at which the series, with
  NaN read as zero, attains its maximum.
\<close>

definition peak_index_spec :: "fval list \<Rightarrow> nat" where
  "peak_index_spec proj =
     (let zs = map nan_to_num proj in length (takeWhile (\<lambda>v. v \<noteq> Max (set zs)) zs))"

text \<open>
  An input whose comparator reports no death on the two days after its onset, run with a
  window of one day.
\<close>

definition exz_raw :: "real list table" where
  "exz_raw = [(''Brazil'', [0, 0, 3, 4]), (''Italy'', [0, 3, 0, 0])]"

definition exz_pr :: prepared where
  "exz_pr = \<lparr>raw_t = exz_raw,
        inicio_t = [(''Brazil'', 2), (''Italy'', 1)],
        data_t = [(''Brazil'', [6, 8]), (''SP'', [2, 4]), (''SP_City'', [2, 2]),
           (''Brazil_sem_SP'', [5, 6]), (''Italy'', [3, 0])],
        nbr_t = 2,
        popu_t = ex_popu,
        popuBR_t = [(''Brazil'', Fin 200), (''SP'', Fin 40), (''SP_City'', Fin 10),
           (''Brazil_sem_SP'', Fin 160)],
        por100k_t = [(''Brazil'', [Fin 3000, Fin 4000]), (''SP'', [Fin 5000, Fin 10000]),
           (''SP_City'', [Fin 20000, Fin 20000]), (''Brazil_sem_SP'', [Fin 3125, Fin 3750])]\<rparr>"

definition exz_m :: modelo where
  "exz_m = \<lparr>correlacionados_r = [''Italy''],
             calibrados_r = [(''SP'', [Fin 5000, Fin 10000, NaN]),
                             (''Italy'', [Fin 5000, Fin 0, Fin 0])],
             projetado_r = [NaN, Fin 10000, NaN],
             infos_r = \<lparr>mortes_no_pico = 4, dia_do_pico = - 1, pico = 10000, index = 1\<rparr>\<rparr>"

section \<open>Properties\<close>

subsection \<open>Auxiliary facts\<close>

lemma ebind_Inr: "ebind m f = Inr r \<longleftrightarrow> (\<exists>v. m = Inr v \<and> f v = Inr r)"
  by (cases m) (auto simp: ebind_def)

lemma lookup_Inr: "lookup t k = Inr v \<longleftrightarrow> map_of t k = Some v"
  by (auto simp: lookup_def split: option.splits)

lemma map_of_assign: "map_of (assign t k v) = (map_of t)(k \<mapsto> v)"
  by (induction t) (auto simp: fun_upd_twist)

lemma set_col_Inr: "set_col n t k vs = Inr t' \<longleftrightarrow> length vs = n \<and> t' = assign t k vs"
  by (auto simp: set_col_def)

lemma idxmax_from_True: "idxmax_from True ib i vs = ib"
  by (induction vs arbitrary: i) auto

lemma idxmax_from_False:
  "idxmax_from False ib i vs =
     (if True \<in> set vs then i + length (takeWhile Not vs) else ib)"
  by (induction vs arbitrary: i) (auto simp: idxmax_from_True)

lemma idxmax_bool:
  "bs \<noteq> [] \<Longrightarrow> idxmax bs = Inr (if True \<in> set bs then length (takeWhile Not bs) else 0)"
  by (cases bs) (auto simp: idxmax_def idxmax_from_True idxmax_from_False)

lemma idxmax_ge: "col \<noteq> [] \<Longrightarrow> idxmax (ge col p1) = Inr (onset col p1)"
  unfolding onset_def
  apply (simp add: idxmax_bool ge_def takeWhile_map o_def not_le)
  apply auto
  done

lemma idxmax_ge_Inr: "idxmax (ge col p1) = Inr i \<longleftrightarrow> col \<noteq> [] \<and> i = onset col p1"
  by (cases "col = []") (auto simp: idxmax_ge, simp add: idxmax_def ge_def)

lemma onset_first:
  "\<exists>v\<in>set col. p1 \<le> v \<Longrightarrow>
   onset col p1 < length col \<and> p1 \<le> col ! onset col p1 \<and> (\<forall>j<onset col p1. col ! j < p1)"
proof (induction col)
  case Nil
  then show ?case by simp
next
  case (Cons a col)
  show ?case
  proof (cases "p1 \<le> a")
    case True
    then show ?thesis by (simp add: onset_def)
  next
    case False
    with Cons.prems have ex: "\<exists>v\<in>set col. p1 \<le> v" by auto
    from False ex have o: "onset (a # col) p1 = Suc (onset col p1)"
      by (auto simp: onset_def)
    from Cons.IH[OF ex] False show ?thesis
      unfolding o by (auto simp: nth_Cons split: nat.splits)
  qed
qed

lemma inicio_of_Inr:
  "inicio_of raw p1 = Inr ini \<Longrightarrow>
   ini = map (\<lambda>kc. (fst kc, onset (snd kc) p1)) raw \<and> (\<forall>kc\<in>set raw. snd kc \<noteq> [])"
  by (induction raw arbitrary: ini) (fastforce simp: ebind_Inr idxmax_ge_Inr)+

lemma map_of_inicio:
  "distinct (map fst raw) \<Longrightarrow> (k, col) \<in> set raw \<Longrightarrow>
   map_of (map (\<lambda>kc. (fst kc, onset (snd kc) p1)) raw) k = Some (onset col p1)"
  by (induction raw) (auto simp: rev_image_eqI)

lemma map_of_inicio_None:
  "k \<notin> fst ` set raw \<Longrightarrow> map_of (map (\<lambda>kc. (fst kc, onset (snd kc) p1)) raw) k = None"
  by (induction raw) auto

lemma add_paises_map_of:
  "add_paises raw popu inicio iBR n ks dat = Inr dat' \<Longrightarrow> map_of dat' k = Some s \<Longrightarrow>
   map_of dat k = Some s \<or>
   (\<exists>i col. map_of inicio k = Some i \<and> map_of raw k = Some col \<and> s = take n (drop i col))"
proof (induction ks arbitrary: dat)
  case Nil
  then show ?case by simp
next
  case (Cons a ks)
  then show ?case
    by (fastforce simp: ebind_Inr lookup_Inr set_col_Inr map_of_assign split: if_splits)
qed

lemma add_paises_Brazil:
  "add_paises raw popu inicio iBR n ks dat = Inr dat' \<Longrightarrow>
   map_of dat' ''Brazil'' = map_of dat ''Brazil''"
proof (induction ks arbitrary: dat)
  case Nil
  then show ?case by simp
next
  case (Cons a ks)
  then show ?case
    by (fastforce simp: ebind_Inr lookup_Inr set_col_Inr map_of_assign split: if_splits)
qed


lemma out_simps: "k \<notin> set out \<longleftrightarrow> k \<noteq> ''Brazil'' \<and> k \<noteq> ''Brazil_sem_SP'' \<and> k \<noteq> ''SP'' \<and> k \<noteq> ''SP_City''"
  by (auto simp: out_def)

lemma ex_inicio: "inicio_of ex_raw 3 = Inr [(''Brazil'', 2), (''Italy'', 1), (''Spain'', 0), (''Chile'', 0)]"
  by (simp add: ex_raw_def ebind_def idxmax_def ge_def)

lemma ex_run: "preparar_dados ex_raw ex_popu ex_sp 3 2 = Inr ex_pr"
  unfolding preparar_dados_def ex_inicio
  by (simp add: ex_raw_def ex_popu_def ex_sp_def ex_pr_def ebind_def lookup_def set_col_def
      cut_diario_def fillna_def col_max_def List.map_filter_simps Sao_Paulo_def por100k_of_def)


subsection \<open>Onset index\<close>

text \<open>
  C1 (as amended).  For every region of \<open>raw\<close>, the onset index computed by
  \<open>preparar_dados\<close> is the first day-index at which the region's daily reported deaths
  are at least \<open>p1\<close>, and 0 when no day reaches \<open>p1\<close>.  The aligned series of the
  region starts at that index: the column of Brazil is the raw column from the onset on,
  times \<open>p4\<close>, and the column of any other country that \<open>data\<close> holds is the raw
  column from the onset on, cut to \<open>nbr\<close> days.
\<close>

theorem onset_is_first_daily:
  assumes run: "preparar_dados raw popu sp p1 p4 = Inr pr"
    and dist: "distinct (map fst raw)"
    and kc: "(k, col) \<in> set raw"
  shows "\<exists>i. lookup (inicio_t pr) k = Inr i
      \<and> (if \<exists>v\<in>set col. p1 \<le> v
         then i < length col \<and> p1 \<le> col ! i \<and> (\<forall>j<i. col ! j < p1) else i = 0)
      \<and> (k = ''Brazil'' \<longrightarrow> lookup (data_t pr) k = Inr (map (\<lambda>v. v * p4) (drop i col)))
      \<and> (k \<notin> set out \<longrightarrow>
           (\<forall>s. lookup (data_t pr) k = Inr s \<longrightarrow> s = take (nbr_t pr) (drop i col)))"
proof -
  let ?ini = "map (\<lambda>kc. (fst kc, onset (snd kc) p1)) raw"
  from run obtain ini br iBR dat1 dat2 dbr dat3 dat where
    ini: "inicio_of raw p1 = Inr ini"
    and br: "lookup raw ''Brazil'' = Inr br"
    and iBR: "lookup ini ''Brazil'' = Inr iBR"
    and d1: "dat1 = assign [(''Brazil'', map (\<lambda>v. v * p4) (drop iBR br))] ''SP''
                (map (\<lambda>v. v * p4) (cut_diario (length (drop iBR br)) (filter (\<lambda>r. place_type r = ''state'') sp)))"
    and d2: "dat2 = assign dat1 ''SP_City''
                (map (\<lambda>v. v * p4) (cut_diario (length (drop iBR br)) (filter (\<lambda>r. city r = Sao_Paulo) sp)))"
    and d3: "dat3 = assign dat2 ''Brazil_sem_SP''
                (map (\<lambda>x. fst x - snd x) (zip dbr (cut_diario (length (drop iBR br)) (filter (\<lambda>r. place_type r = ''state'') sp))))"
    and ap: "add_paises raw popu ini iBR (length (drop iBR br)) (map fst ini) dat3 = Inr dat"
    and pini: "inicio_t pr = ini" and pdat: "data_t pr = dat"
    and pn: "nbr_t pr = length (drop iBR br)"
    unfolding preparar_dados_def Let_def ebind_Inr set_col_Inr by auto
  from inicio_of_Inr[OF ini] have ini_eq: "ini = ?ini" by simp
  have lk: "lookup (inicio_t pr) k = Inr (onset col p1)"
    unfolding pini lookup_Inr ini_eq by (rule map_of_inicio[OF dist kc])
  have fst: "if \<exists>v\<in>set col. p1 \<le> v
         then onset col p1 < length col \<and> p1 \<le> col ! onset col p1 \<and> (\<forall>j<onset col p1. col ! j < p1)
         else onset col p1 = 0"
    using onset_first[of col p1] by (auto simp: onset_def)
  have mraw: "map_of raw k = Some col" using dist kc by simp
  have brz: "k = ''Brazil'' \<longrightarrow> lookup (data_t pr) k = Inr (map (\<lambda>v. v * p4) (drop (onset col p1) col))"
  proof
    assume kb: "k = ''Brazil''"
    with br mraw have "br = col" by (simp add: lookup_Inr)
    moreover from iBR lk kb pini have "iBR = onset col p1" by simp
    moreover have "map_of dat ''Brazil'' = map_of dat3 ''Brazil''"
      by (rule add_paises_Brazil[OF ap])
    ultimately show "lookup (data_t pr) k = Inr (map (\<lambda>v. v * p4) (drop (onset col p1) col))"
      unfolding pdat lookup_Inr kb d3 d2 d1 by (simp add: map_of_assign)
  qed
  have oth: "k \<notin> set out \<longrightarrow>
           (\<forall>s. lookup (data_t pr) k = Inr s \<longrightarrow> s = take (nbr_t pr) (drop (onset col p1) col))"
  proof (intro impI allI)
    fix s assume ko: "k \<notin> set out" and s: "lookup (data_t pr) k = Inr s"
    from s have "map_of dat k = Some s" by (simp add: pdat lookup_Inr)
    from add_paises_map_of[OF ap this]
    have "map_of dat3 k = Some s \<or>
       (\<exists>i c. map_of ini k = Some i \<and> map_of raw k = Some c \<and> s = take (length (drop iBR br)) (drop i c))" .
    moreover have "map_of dat3 k = None" using ko
      unfolding d3 d2 d1 by (simp add: map_of_assign out_simps)
    moreover have "map_of ini k = Some (onset col p1)" using lk by (simp add: pini lookup_Inr)
    ultimately show "s = take (nbr_t pr) (drop (onset col p1) col)"
      using mraw pn by auto
  qed
  from lk fst brz oth show ?thesis by blast
qed

theorem onset_is_first_daily_witness:
  "preparar_dados ex_raw ex_popu ex_sp 3 2 = Inr ex_pr \<and> distinct (map fst ex_raw)
   \<and> (''Italy'', [0, 3, 5, 10]) \<in> set ex_raw
   \<and> lookup (inicio_t ex_pr) ''Italy'' = Inr 1
   \<and> lookup (data_t ex_pr) ''Italy'' = Inr [3, 5]"
proof -
  have d: "distinct (map fst ex_raw)" by (simp add: ex_raw_def)
  have m: "(''Italy'', [0, 3, 5, 10]) \<in> set ex_raw" by (simp add: ex_raw_def)
  show ?thesis
    using onset_is_first_daily [OF ex_run d m] ex_run d m
    by (simp add: ex_pr_def lookup_def out_def)
qed

text \<open>
  C1 as stated fails: with daily deaths 1, 1, 1, 3 and threshold 3 the cumulative count
  reaches 3 on day 2, and the onset index computed is 3.
\<close>

theorem onset_cumulative_counterexample:
  "onset_cumulative [1, 1, 1, 3] 3 = Some 2
   \<and> inicio_of [(''Brazil'', [1, 1, 1, 3])] 3 = Inr [(''Brazil'', 3)]"
  by (simp add: onset_cumulative_def upt_rec ebind_def idxmax_def ge_def)

subsection \<open>The example run\<close>

lemma ex_pearson: "pearson_ref (data_t ex_pr) ''SP'' = Inr ex_pearson_t"
  by (simp add: pearson_ref_def ex_pr_def ex_pearson_t_def lookup_def ebind_def corr_def mean_def
      Let_def)

lemma ex_cs: "correlacionados_of ex_pearson_t 5 = [''Italy'']"
  by (simp add: correlacionados_of_def ex_pearson_t_def sort_values_desc_def py_take_def out_def)

lemma ex_calibrados:
  "calibrados_of ex_raw (inicio_t ex_pr) ex_popu (por100k_t ex_pr) [''Italy''] 2 ''SP'' = Inr ex_cal"
  by (simp add: calibrados_of_def ex_pr_def ex_raw_def ex_popu_def lookup_def ebind_def
      concat_col_def nrows_def pad_def rolling_table_def rolling_mean_def window_mean_def
      ex_cal_def upt_rec)

lemma ex_calibrados3:
  "calibrados_of ex_raw (inicio_t ex_pr) ex_popu (por100k_t ex_pr) [''Italy''] 3 ''SP'' = Inr ex_cal3"
  by (simp add: calibrados_of_def ex_pr_def ex_raw_def ex_popu_def lookup_def ebind_def
      concat_col_def nrows_def pad_def rolling_table_def rolling_mean_def window_mean_def
      ex_cal3_def upt_rec)

lemma ex_pesos: "pesos_of ex_pearson_t [''Italy''] = Inr [(''Italy'', Fin 1)]"
  by (simp add: pesos_of_def ex_pearson_t_def lookup_def ebind_def normalizar_def py_sum_def)

lemma ex_proj:
  "proj_of ex_cal [(''Italy'', Fin 1)] [''Italy''] ''SP'' 2 = Inr [NaN, Fin 7500, Fin (28125 / 2)]"
  by (simp add: proj_of_def proj_inicial_def ex_cal_def lookup_def ebind_def cell_def nrows_def
      upt_rec numeral_2_eq_2)

lemma ex_proj3:
  "proj_of ex_cal3 [(''Italy'', Fin 1)] [''Italy''] ''SP'' 2 = Inr [NaN, NaN, NaN]"
  by (simp add: proj_of_def proj_inicial_def ex_cal3_def lookup_def ebind_def cell_def nrows_def
      upt_rec numeral_2_eq_2)

lemma ex_infos:
  "infos_of [NaN, Fin 7500, Fin (28125 / 2)] (popuBR_t ex_pr) ''SP'' 2 now =
     Inr \<lparr>mortes_no_pico = 5, dia_do_pico = now, pico = (28125 / 2), index = 2\<rparr>"
  by (simp add: infos_of_def ex_pr_def array_max_def lookup_def ebind_def trunc_def)

lemma ex_rodar:
  "rodar_modelo ex_raw (inicio_t ex_pr) (data_t ex_pr) 2 ex_popu (popuBR_t ex_pr)
     (por100k_t ex_pr) 5 2 ''SP'' now = Inr (ex_m now)"
  unfolding rodar_modelo_def ex_pearson
  by (simp add: ebind_def ex_cs ex_calibrados ex_pesos ex_proj ex_infos ex_m_def)

subsection \<open>The complement cut\<close>

text \<open>
  C2 (the code at the failing input).  With \<open>p4 = 2\<close>, daily deaths 3, 4 for Brazil and
  1, 2 for the state, the column \<open>Brazil_sem_SP\<close> is 5, 6: the corrected series of Brazil
  minus the uncorrected series of the state.  The corrected difference is 4, 4.
\<close>

theorem brazil_sem_sp_at_example:
  "preparar_dados ex_raw ex_popu ex_sp 3 2 = Inr ex_pr
   \<and> lookup (data_t ex_pr) ''Brazil'' = Inr [2 * 3, 2 * 4]
   \<and> lookup (data_t ex_pr) ''SP'' = Inr [2 * 1, 2 * 2]
   \<and> lookup (data_t ex_pr) ''Brazil_sem_SP'' = Inr [5, 6]
   \<and> [2 * (3 - 1), 2 * (4 - 2)] = [4, 4 :: real]"
  using ex_run by (simp add: ex_pr_def lookup_def)

subsection \<open>Projection\<close>

lemma projetar_prefix:
  "projetar cal pesos cs proj ds = Inr proj' \<Longrightarrow> \<exists>ys. proj' = proj @ ys \<and> length ys = length ds"
proof (induction ds arbitrary: proj)
  case Nil
  then show ?case by simp
next
  case (Cons d ds)
  then obtain x where "projetar cal pesos cs (proj @ [fmul (last proj) x]) ds = Inr proj'"
    by (auto simp: ebind_Inr)
  from Cons.IH[OF this] show ?case by auto
qed

lemma replicate_update_last:
  "(replicate (Suc k) a)[k := v] = replicate k a @ [v]"
  by (induction k) simp_all

lemma proj_inicial_Inr:
  "proj_inicial cal ref n = Inr proj \<Longrightarrow>
   \<exists>rcol. lookup cal ref = Inr rcol \<and> 0 < n \<and> n - 1 < length rcol
     \<and> proj = replicate (n - 1) NaN @ [rcol ! (n - 1)]"
proof -
  have r: "\<And>v::fval. 0 < n \<Longrightarrow> (replicate n NaN)[n - Suc 0 := v] = replicate (n - Suc 0) NaN @ [v]"
    by (cases n) (simp_all add: replicate_update_last del: replicate_Suc)
  assume "proj_inicial cal ref n = Inr proj"
  then show ?thesis
    by (auto simp: proj_inicial_def ebind_Inr cell_def r split: if_splits)
qed

lemma proj_of_Inr:
  assumes "proj_of cal pesos cs ref n = Inr proj"
  shows "\<exists>rcol ys. lookup cal ref = Inr rcol \<and> 0 < n \<and> n - 1 < length rcol
     \<and> proj = replicate (n - 1) NaN @ [rcol ! (n - 1)] @ ys \<and> length ys = nrows cal - n
     \<and> projetar cal pesos cs (replicate (n - 1) NaN @ [rcol ! (n - 1)]) [n..<nrows cal] = Inr proj"
proof -
  from assms obtain p0 where p0: "proj_inicial cal ref n = Inr p0"
    and pj: "projetar cal pesos cs p0 [n..<nrows cal] = Inr proj"
    by (auto simp: proj_of_def ebind_Inr)
  from proj_inicial_Inr[OF p0] projetar_prefix[OF pj] pj show ?thesis by auto
qed

lemma projetar_all_nan:
  "projetar cal pesos cs proj ds = Inr proj' \<Longrightarrow> proj \<noteq> [] \<Longrightarrow> \<forall>v\<in>set proj. v = NaN \<Longrightarrow>
   \<forall>v\<in>set proj'. v = NaN"
proof (induction ds arbitrary: proj)
  case Nil
  then show ?case by simp
next
  case (Cons d ds)
  from Cons.prems(1) obtain x where
    step: "projetar cal pesos cs (proj @ [fmul (last proj) x]) ds = Inr proj'"
    by (auto simp: ebind_Inr)
  from Cons.prems(2,3) have "last proj = NaN" by (metis last_in_set)
  then have "\<forall>v\<in>set (proj @ [fmul (last proj) x]). v = NaN"
    using Cons.prems(3) by simp
  from Cons.IH[OF step _ this] show ?case by simp
qed

lemma lookup_rolling_table:
  "lookup (rolling_table p3 t) k = Inr c \<Longrightarrow> \<exists>c0. lookup t k = Inr c0 \<and> c = rolling_mean p3 c0"
  by (induction t) (auto simp: rolling_table_def lookup_def split: option.splits if_splits)

lemma rolling_mean_early:
  "i < length col \<Longrightarrow> i + 1 < p3 \<Longrightarrow> rolling_mean p3 col ! i = NaN"
  by (simp add: rolling_mean_def)

lemma length_rolling_mean: "length (rolling_mean p3 col) = length col"
  by (simp add: rolling_mean_def)

lemma sqrt_9: "sqrt 9 = 3"
  by (rule real_sqrt_unique) simp_all

lemma exz_inicio: "inicio_of exz_raw 3 = Inr [(''Brazil'', 2), (''Italy'', 1)]"
  by (simp add: exz_raw_def ebind_def idxmax_def ge_def)

lemma exz_run: "preparar_dados exz_raw ex_popu ex_sp 3 2 = Inr exz_pr"
  unfolding preparar_dados_def exz_inicio
  by (simp add: exz_raw_def ex_popu_def ex_sp_def exz_pr_def ebind_def lookup_def set_col_def
      Let_def cut_diario_def fillna_def col_max_def List.map_filter_simps Sao_Paulo_def
      por100k_of_def)

lemma exz_pearson:
  "pearson_ref (data_t exz_pr) ''SP'' =
     Inr [(''Brazil'', Fin 1), (''SP'', Fin 1), (''SP_City'', NaN), (''Brazil_sem_SP'', Fin 1),
          (''Italy'', Fin (- 1))]"
  by (simp add: pearson_ref_def exz_pr_def lookup_def ebind_def corr_def mean_def Let_def sqrt_9)

lemma exz_cs:
  "correlacionados_of [(''Brazil'', Fin 1), (''SP'', Fin 1), (''SP_City'', NaN),
      (''Brazil_sem_SP'', Fin 1), (''Italy'', Fin (- 1))] 5 = [''Italy'']"
  by (simp add: correlacionados_of_def sort_values_desc_def py_take_def out_def)

lemma exz_calibrados:
  "calibrados_of exz_raw (inicio_t exz_pr) ex_popu (por100k_t exz_pr) [''Italy''] 1 ''SP'' =
     Inr [(''SP'', [Fin 5000, Fin 10000, NaN]), (''Italy'', [Fin 5000, Fin 0, Fin 0])]"
  by (simp add: calibrados_of_def exz_pr_def exz_raw_def ex_popu_def lookup_def ebind_def
      concat_col_def nrows_def pad_def rolling_table_def rolling_mean_def window_mean_def upt_rec)

lemma exz_rodar:
  "rodar_modelo exz_raw (inicio_t exz_pr) (data_t exz_pr) 2 ex_popu (popuBR_t exz_pr)
     (por100k_t exz_pr) 5 1 ''SP'' 0 = Inr exz_m"
  unfolding rodar_modelo_def exz_pearson ebind_def sum.case exz_cs Let_def exz_calibrados
  by (simp add: exz_pr_def lookup_def ebind_def pesos_of_def normalizar_def py_sum_def
      proj_of_def proj_inicial_def cell_def nrows_def upt_rec numeral_2_eq_2 infos_of_def
      array_max_def trunc_def exz_m_def)

text \<open>
  C3 (as amended).  On a day \<open>d\<close>, every comparator whose calibrated value at \<open>d\<close> is
  missing contributes the neutral multiplier 1 times its weight, every other comparator
  contributes the ratio of its values at \<open>d\<close> and \<open>d - 1\<close> times its weight, and the
  increment of the day is their sum; no error is raised by the division.
\<close>

theorem incremento_neutral_when_missing:
  assumes "\<forall>c\<in>set cs. lookup cal c = Inr (colf c) \<and> d < length (colf c)
             \<and> lookup pesos c = Inr (wgt c)"
  shows "incremento cal pesos d x cs =
     Inr (foldl fadd x
            (map (\<lambda>c. fmul (if isnan (colf c ! d) then Fin 1
                             else fdiv (colf c ! d) (colf c ! (d - 1))) (wgt c)) cs))"
  using assms
proof (induction cs arbitrary: x)
  case Nil
  show ?case by simp
next
  case (Cons c cs)
  from Cons.prems have c: "lookup cal c = Inr (colf c)" "d < length (colf c)"
    "lookup pesos c = Inr (wgt c)" by simp_all
  from Cons.prems have rest: "\<forall>c\<in>set cs. lookup cal c = Inr (colf c) \<and> d < length (colf c)
             \<and> lookup pesos c = Inr (wgt c)" by simp
  from c have dm: "d - 1 < length (colf c)" by simp
  show ?case
    using c dm by (simp add: ebind_def cell_def Cons.IH[OF rest])
qed

theorem incremento_neutral_when_missing_witness:
  "incremento ex3_cal ex3_pesos 1 (Fin 0) [''Italy'', ''China''] = Inr (Fin (7 / 4))"
proof -
  have h: "\<forall>c\<in>set [''Italy'', ''China'']. lookup ex3_cal c = Inr (ex3_col c)
             \<and> 1 < length (ex3_col c) \<and> lookup ex3_pesos c = Inr (ex3_w c)"
    by (simp add: ex3_cal_def ex3_pesos_def ex3_col_def ex3_w_def lookup_def)
  show ?thesis
    using incremento_neutral_when_missing [OF h, of "Fin 0"]
    by (simp add: ex3_col_def ex3_w_def)
qed

text \<open>
  C3 as stated fails: a comparator whose calibrated value is 0 on two days in a row
  contributes the ratio 0 / 0 on the second, which is NaN; the run returns with NaN in the
  projected series.
\<close>

theorem zero_previous_day_counterexample:
  "pipeline exz_raw ex_popu ex_sp 3 5 1 2 ''SP'' 0 = Inr (exz_pr, exz_m)
   \<and> lookup (calibrados_r exz_m) ''Italy'' = Inr [Fin 5000, Fin 0, Fin 0]
   \<and> projetado_r exz_m = [NaN, Fin 10000, NaN]"
  using exz_rodar
  by (simp add: pipeline_def exz_run ebind_def)
     (simp add: exz_pr_def exz_m_def lookup_def)

text \<open>
  C5.  Whenever \<open>rodar_modelo\<close> returns, the projected series holds at \<open>nbr - 1\<close> the
  calibrated value of the reference at \<open>nbr - 1\<close>, and NaN at every index below.
\<close>

theorem seam_continuity:
  assumes "rodar_modelo raw inicio dat n popu popuBR por100k p2 p3 ref now = Inr m"
  shows "\<exists>rcol. lookup (calibrados_r m) ref = Inr rcol \<and> 0 < n \<and> n - 1 < length rcol
      \<and> n \<le> length (projetado_r m)
      \<and> projetado_r m ! (n - 1) = rcol ! (n - 1)
      \<and> (\<forall>i<n - 1. projetado_r m ! i = NaN)"
proof -
  from assms obtain pearson cal pesos proj inf where
    pj: "proj_of cal pesos (correlacionados_of pearson p2) ref n = Inr proj"
    and m: "m = \<lparr>correlacionados_r = correlacionados_of pearson p2, calibrados_r = cal,
                 projetado_r = proj, infos_r = inf\<rparr>"
    by (auto simp: rodar_modelo_def ebind_Inr Let_def)
  from proj_of_Inr[OF pj] obtain rcol ys where
    r: "lookup cal ref = Inr rcol" "0 < n" "n - 1 < length rcol"
    and p: "proj = replicate (n - 1) NaN @ [rcol ! (n - 1)] @ ys" by blast
  have "n \<le> length proj" using r p by simp
  moreover have "proj ! (n - 1) = rcol ! (n - 1)" using p by (simp add: nth_append)
  moreover have "\<forall>i<n - 1. proj ! i = NaN" using p by (simp add: nth_append)
  ultimately show ?thesis using r m by simp
qed

theorem seam_continuity_witness:
  "lookup (calibrados_r (ex_m 0)) ''SP'' = Inr [NaN, Fin 7500, NaN]
   \<and> projetado_r (ex_m 0) ! (2 - 1) = Fin 7500
   \<and> projetado_r (ex_m 0) ! 0 = NaN"
  using seam_continuity [OF ex_rodar [of 0]]
  by (simp add: ex_m_def ex_cal_def lookup_def)

text \<open>
  C10.  When \<open>nbr\<close> is smaller than the window \<open>p3\<close>, the calibrated value of the
  reference at \<open>nbr - 1\<close> is NaN, and so is every entry of the projected series.
\<close>

theorem short_series_all_undefined:
  assumes cal: "calibrados_of raw inicio popu por100k cs p3 ref = Inr cal"
    and short: "n < p3"
    and pj: "proj_of cal pesos cs ref n = Inr proj"
  shows "(\<exists>rcol. lookup cal ref = Inr rcol \<and> n - 1 < length rcol \<and> rcol ! (n - 1) = NaN)
      \<and> n \<le> length proj \<and> (\<forall>v\<in>set proj. v = NaN)"
proof -
  from cal obtain cal0 where c0: "cal = rolling_table p3 cal0"
    by (auto simp: calibrados_of_def ebind_Inr)
  from proj_of_Inr[OF pj] obtain rcol ys where
    r: "lookup cal ref = Inr rcol" "0 < n" "n - 1 < length rcol"
    and p: "proj = replicate (n - 1) NaN @ [rcol ! (n - 1)] @ ys"
    and run: "projetar cal pesos cs (replicate (n - 1) NaN @ [rcol ! (n - 1)]) [n..<nrows cal] = Inr proj"
    by blast
  from lookup_rolling_table[OF r(1)[unfolded c0]] obtain col0 where
    rc: "rcol = rolling_mean p3 col0" by blast
  have seam: "rcol ! (n - 1) = NaN"
    unfolding rc using r(2,3) short
    by (intro rolling_mean_early) (simp_all add: rc length_rolling_mean)
  have "\<forall>v\<in>set (replicate (n - 1) NaN @ [rcol ! (n - 1)]). v = NaN"
    using seam by auto
  from projetar_all_nan[OF run _ this] have "\<forall>v\<in>set proj. v = NaN" by simp
  moreover have "n \<le> length proj" using p r(2) by simp
  ultimately show ?thesis using r seam by blast
qed

theorem short_series_all_undefined_witness:
  "calibrados_of ex_raw (inicio_t ex_pr) ex_popu (por100k_t ex_pr) [''Italy''] 3 ''SP'' = Inr ex_cal3
   \<and> (2::nat) < 3
   \<and> proj_of ex_cal3 [(''Italy'', Fin 1)] [''Italy''] ''SP'' 2 = Inr [NaN, NaN, NaN]
   \<and> lookup ex_cal3 ''SP'' = Inr [NaN, NaN, NaN]"
proof -
  have s: "(2::nat) < 3" by simp
  show ?thesis
    using short_series_all_undefined [OF ex_calibrados3 s ex_proj3] ex_calibrados3 ex_proj3
    by (simp add: ex_cal3_def lookup_def)
qed

subsection \<open>A target without onset\<close>

lemma ex4_inicio: "inicio_of ex4_raw 3 = Inr [(''Brazil'', 0), (''Italy'', 1)]"
  by (simp add: ex4_raw_def ebind_def idxmax_def ge_def)

lemma ex4_run: "preparar_dados ex4_raw ex_popu ex_sp 3 2 = Inr ex4_pr"
  unfolding preparar_dados_def ex4_inicio
  by (simp add: ex4_raw_def ex_popu_def ex_sp_def ex4_pr_def ebind_def lookup_def set_col_def
      Let_def cut_diario_def fillna_def col_max_def List.map_filter_simps Sao_Paulo_def por100k_of_def)

lemma ex4_pearson:
  "pearson_ref (data_t ex4_pr) ''SP'' =
     Inr [(''Brazil'', Fin 1), (''SP'', Fin 1), (''SP_City'', NaN), (''Brazil_sem_SP'', Fin 1)]"
  by (simp add: pearson_ref_def ex4_pr_def lookup_def ebind_def corr_def mean_def Let_def)

lemma ex4_cs:
  "correlacionados_of [(''Brazil'', Fin 1), (''SP'', Fin 1), (''SP_City'', NaN),
      (''Brazil_sem_SP'', Fin 1)] 5 = []"
  by (simp add: correlacionados_of_def sort_values_desc_def py_take_def out_def)

lemma ex4_rodar:
  "rodar_modelo ex4_raw (inicio_t ex4_pr) (data_t ex4_pr) 2 ex_popu (popuBR_t ex4_pr)
     (por100k_t ex4_pr) 5 1 ''SP'' now = Inr (ex4_m now)"
  unfolding rodar_modelo_def ex4_pearson
  by (simp add: ebind_def ex4_cs calibrados_of_def ex4_pr_def lookup_def rolling_table_def
      rolling_mean_def window_mean_def upt_rec pesos_of_def normalizar_def proj_of_def
      proj_inicial_def cell_def nrows_def numeral_2_eq_2 infos_of_def array_max_def trunc_def
      ex4_m_def)

lemma lookup_Nil: "lookup [] k = Inl KeyError"
  by (simp add: lookup_def)

lemma lookup_Cons: "lookup ((k', v) # t) k = (if k' = k then Inr v else lookup t k)"
  by (simp add: lookup_def)

lemma inicio_of_total:
  "\<forall>kc\<in>set raw. snd kc \<noteq> [] \<Longrightarrow>
   inicio_of raw p1 = Inr (map (\<lambda>kc. (fst kc, onset (snd kc) p1)) raw)"
  by (induction raw) (auto simp: ebind_def idxmax_ge)

lemma lookup_map_onset:
  "lookup raw k = Inr col \<Longrightarrow>
   lookup (map (\<lambda>kc. (fst kc, onset (snd kc) p1)) raw) k = Inr (onset col p1)"
  by (induction raw) (auto simp: lookup_def split: option.splits if_splits)

lemma length_diffs: "length (diffs xs) = length xs - 1"
  by (induction xs rule: diffs.induct) simp_all

lemma length_cut_diario: "n < length rows \<Longrightarrow> length (cut_diario n rows) = n"
  by (simp add: cut_diario_def length_diffs)

lemma add_paises_zero:
  "set ks \<subseteq> fst ` set inicio \<Longrightarrow> add_paises raw popu inicio 0 n ks dat = Inr dat"
proof (induction ks)
  case Nil
  then show ?case by simp
next
  case (Cons k ks)
  then have "k \<in> fst ` set inicio" by simp
  then obtain i where "lookup inicio k = Inr i"
    by (cases "map_of inicio k") (auto simp: lookup_def map_of_eq_None_iff)
  with Cons show ?case by (auto simp: ebind_def)
qed

text \<open>
  C4 (as amended).  When no daily value of Brazil reaches \<open>p1\<close>, nothing is raised for
  it: \<open>preparar_dados\<close> takes 0 as the onset index of Brazil, and it returns whenever
  the tables fit a series that starts on day 0 (no raw column is empty, the state and the
  city each have more rows than the raw series has days, the population of Brazil is
  there).  The column of Brazil is then the whole raw column times \<open>p4\<close>, \<open>nbr\<close> is
  the length of the raw column, and no other country is aligned.
\<close>

theorem target_without_onset:
  assumes br: "lookup raw ''Brazil'' = Inr br"
    and never: "\<forall>v\<in>set br. v < p1"
    and cols: "\<forall>kc\<in>set raw. snd kc \<noteq> []"
    and st: "length br < length (filter (\<lambda>r. place_type r = ''state'') sp)"
    and ci: "length br < length (filter (\<lambda>r. city r = Sao_Paulo) sp)"
    and pop: "lookup popu ''Brazil'' = Inr pb"
  shows "\<exists>pr. preparar_dados raw popu sp p1 p4 = Inr pr
       \<and> lookup (inicio_t pr) ''Brazil'' = Inr 0
       \<and> lookup (data_t pr) ''Brazil'' = Inr (map (\<lambda>v. v * p4) br)
       \<and> nbr_t pr = length br
       \<and> map fst (data_t pr) = [''Brazil'', ''SP'', ''SP_City'', ''Brazil_sem_SP'']"
proof -
  let ?ini = "map (\<lambda>kc. (fst kc, onset (snd kc) p1)) raw"
  have ini: "inicio_of raw p1 = Inr ?ini" by (rule inicio_of_total[OF cols])
  have "onset br p1 = 0" using never by (auto simp: onset_def)
  with lookup_map_onset[OF br, of p1] have iBR: "lookup ?ini ''Brazil'' = Inr 0" by simp
  have l1: "length (cut_diario (length br) (filter (\<lambda>r. place_type r = ''state'') sp)) = length br"
    by (rule length_cut_diario[OF st])
  have l2: "length (cut_diario (length br) (filter (\<lambda>r. city r = Sao_Paulo) sp)) = length br"
    by (rule length_cut_diario[OF ci])
  have ap: "\<And>dat. add_paises raw popu ?ini 0 (length br) (map fst raw) dat = Inr dat"
    by (rule add_paises_zero) (simp add: image_image)
  show ?thesis
    unfolding preparar_dados_def ini
    by (simp add: ebind_def br iBR Let_def set_col_def l1 l2 ap pop lookup_Cons lookup_Nil
        por100k_of_def o_def)
qed

theorem target_without_onset_witness:
  "lookup ex4_raw ''Brazil'' = Inr [1, 2]
   \<and> (\<exists>pr. preparar_dados ex4_raw ex_popu ex_sp 3 2 = Inr pr
         \<and> lookup (inicio_t pr) ''Brazil'' = Inr 0
         \<and> lookup (data_t pr) ''Brazil'' = Inr [1 * 2, 2 * 2]
         \<and> nbr_t pr = 2)"
proof -
  have b: "lookup ex4_raw ''Brazil'' = Inr [1, 2]" by (simp add: ex4_raw_def lookup_def)
  have n: "\<forall>v\<in>set [1, 2 :: real]. v < 3" by simp
  have c: "\<forall>kc\<in>set ex4_raw. snd kc \<noteq> []" by (simp add: ex4_raw_def)
  have s: "length [1, 2 :: real] < length (filter (\<lambda>r. place_type r = ''state'') ex_sp)"
    by (simp add: ex_sp_def)
  have t: "length [1, 2 :: real] < length (filter (\<lambda>r. city r = Sao_Paulo) ex_sp)"
    by (simp add: ex_sp_def Sao_Paulo_def)
  have p: "lookup ex_popu ''Brazil'' = Inr 200" by (simp add: ex_popu_def lookup_def)
  show ?thesis
    using target_without_onset [OF b n c s t p, of 2] b by (auto simp: numeral_2_eq_2)
qed

text \<open>
  C4 as stated fails: with daily deaths 1, 2 for Brazil and threshold 3 the whole run
  returns a projected series and a summary.
\<close>

theorem target_without_onset_counterexample:
  "lookup ex4_raw ''Brazil'' = Inr [1, 2]
   \<and> pipeline ex4_raw ex_popu ex_sp 3 5 1 2 ''SP'' 0 = Inr (ex4_pr, ex4_m 0)
   \<and> lookup (data_t ex4_pr) ''Brazil'' = Inr [2, 4]"
  using ex4_rodar [of 0]
  by (simp add: pipeline_def ex4_run ebind_def)
     (simp add: ex4_pr_def ex4_raw_def lookup_def)

subsection \<open>The clock\<close>

lemma infos_of_now:
  "infos_of proj popuBR ref n now = Inr info \<Longrightarrow>
   infos_of proj popuBR ref n now' = Inr (info\<lparr>dia_do_pico := dia_do_pico info + (now' - now)\<rparr>)"
  by (auto simp: infos_of_def ebind_Inr)

lemma ex_pipeline: "pipeline ex_raw ex_popu ex_sp 3 5 2 2 ''SP'' now = Inr (ex_pr, ex_m now)"
  using ex_rodar [of now] by (simp add: pipeline_def ex_run ebind_def) (simp add: ex_pr_def)

text \<open>
  C9 (as amended).  On the same tables and parameters, two runs of the whole program under
  different clocks return the same aligned table, comparators, calibrated table, projected
  series, peak value, peak index and deaths at peak; the date of the peak moves with the
  clock.
\<close>

theorem clock_only_moves_the_date:
  assumes "pipeline raw popu sp p1 p2 p3 p4 ref now = Inr (pr, m)"
  shows "pipeline raw popu sp p1 p2 p3 p4 ref now' =
           Inr (pr, m\<lparr>infos_r := (infos_r m)\<lparr>dia_do_pico := dia_do_pico (infos_r m) + (now' - now)\<rparr>\<rparr>)"
  using assms
  by (auto simp: pipeline_def rodar_modelo_def Let_def ebind_Inr dest: infos_of_now[where now'=now'])

theorem clock_only_moves_the_date_witness:
  "pipeline ex_raw ex_popu ex_sp 3 5 2 2 ''SP'' 7 = Inr (ex_pr, ex_m 7)"
  using clock_only_moves_the_date [OF ex_pipeline [of 0], of 7]
  by (simp add: ex_m_def)

text \<open>
  C9 as stated fails: the same input run on two consecutive days gives two summaries.
\<close>

theorem clock_dependence_counterexample:
  "pipeline ex_raw ex_popu ex_sp 3 5 2 2 ''SP'' 0 = Inr (ex_pr, ex_m 0)
   \<and> pipeline ex_raw ex_popu ex_sp 3 5 2 2 ''SP'' 1 = Inr (ex_pr, ex_m 1)
   \<and> dia_do_pico (infos_r (ex_m 0)) = 0 \<and> dia_do_pico (infos_r (ex_m 1)) = 1"
  by (simp add: ex_pipeline ex_m_def)

subsection \<open>Weights\<close>

lemma py_sum_Fin_aux: "foldl fadd (Fin a) (map Fin rs) = Fin (a + sum_list rs)"
  by (induction rs arbitrary: a) (simp_all add: add.assoc)

lemma py_sum_Fin: "py_sum (map Fin rs) = Fin (sum_list rs)"
  by (simp add: py_sum_def py_sum_Fin_aux)

lemma normalizar_map: "normalizar pesos = map (\<lambda>w. fdiv w (py_sum pesos)) pesos"
  unfolding normalizar_def by (rule nth_equalityI) simp_all

lemma sum_list_divide: "sum_list (map (\<lambda>r. r / s) rs) = sum_list rs / (s::real)"
  by (induction rs) (simp_all add: add_divide_distrib)

text \<open>
  C6 (as amended).  When the correlation coefficients of the comparators are all defined
  and their sum is not zero, every weight is the coefficient divided by that sum and the
  weights sum to 1; the weights are non-negative when no coefficient is negative.
\<close>

theorem weights_normalised:
  assumes "lookups pearson cs = Inr (map Fin rs)" and "sum_list rs \<noteq> 0"
  shows "pesos_of pearson cs = Inr (zip cs (map (\<lambda>r. Fin (r / sum_list rs)) rs))
       \<and> py_sum (map (\<lambda>r. Fin (r / sum_list rs)) rs) = Fin 1
       \<and> ((\<forall>r\<in>set rs. 0 \<le> r) \<longrightarrow> (\<forall>r\<in>set rs. 0 \<le> r / sum_list rs))"
proof -
  have n: "normalizar (map Fin rs) = map (\<lambda>r. Fin (r / sum_list rs)) rs"
    using assms(2) by (simp add: normalizar_map py_sum_Fin)
  have "map (\<lambda>r. Fin (r / sum_list rs)) rs = map Fin (map (\<lambda>r. r / sum_list rs) rs)" by simp
  then have s: "py_sum (map (\<lambda>r. Fin (r / sum_list rs)) rs) = Fin 1"
    using assms(2) by (simp only: py_sum_Fin sum_list_divide) simp
  have p: "(\<forall>r\<in>set rs. 0 \<le> r) \<longrightarrow> (\<forall>r\<in>set rs. 0 \<le> r / sum_list rs)"
  proof (intro impI ballI)
    fix r assume a: "\<forall>r\<in>set rs. 0 \<le> r" and r: "r \<in> set rs"
    from a have "0 \<le> sum_list rs" by (simp add: sum_list_nonneg)
    with a r show "0 \<le> r / sum_list rs" by simp
  qed
  from assms(1) n s p show ?thesis by (simp add: pesos_of_def ebind_def)
qed

theorem weights_normalised_witness:
  "pesos_of ex6_pearson [''Italy'', ''Spain'', ''Iran'']
       = Inr [(''Italy'', Fin 1), (''Spain'', Fin 1), (''Iran'', Fin (- 1))]
   \<and> py_sum [Fin 1, Fin 1, Fin (- 1)] = Fin 1"
proof -
  have l: "lookups ex6_pearson [''Italy'', ''Spain'', ''Iran''] = Inr (map Fin [1, 1, - 1])"
    by (simp add: ex6_pearson_def lookup_def ebind_def)
  have s: "sum_list [1, 1, - 1 :: real] \<noteq> 0" by simp
  show ?thesis using weights_normalised [OF l s] by simp
qed

text \<open>
  C6 as stated fails: with fewer well correlated regions than \<open>p2\<close>, a region whose
  coefficient is negative is selected and its weight is negative.
\<close>

theorem negative_weight_counterexample:
  "pearson_ref ex6_dat ''SP'' = Inr ex6_pearson
   \<and> correlacionados_of ex6_pearson 5 = [''Italy'', ''Spain'', ''Iran'']
   \<and> pesos_of ex6_pearson [''Italy'', ''Spain'', ''Iran'']
       = Inr [(''Italy'', Fin 1), (''Spain'', Fin 1), (''Iran'', Fin (- 1))]"
  by (simp add: pearson_ref_def ex6_dat_def ex6_pearson_def lookup_def ebind_def corr_def mean_def
      Let_def correlacionados_of_def sort_values_desc_def py_take_def out_def pesos_of_def
      normalizar_def py_sum_def)

subsection \<open>Selection of the comparators\<close>

lemma isnan_iff: "isnan a \<longleftrightarrow> a = NaN"
  by (cases a) auto

lemma fle_total: "\<not> isnan a \<Longrightarrow> \<not> isnan b \<Longrightarrow> fle a b \<or> fle b a"
  by (cases a; cases b) auto

lemma fle_trans: "\<not> isnan b \<Longrightarrow> fle a b \<Longrightarrow> fle b c \<Longrightarrow> fle a c"
  by (cases a; cases b; cases c) auto

lemma fle_refl: "\<not> isnan a \<Longrightarrow> fle a a"
  by (cases a) auto

lemma mset_insort_desc: "mset (insort_desc x ys) = add_mset x (mset ys)"
  by (induction ys) auto

lemma mset_foldr_insort_desc: "mset (foldr insort_desc xs []) = mset xs"
  by (induction xs) (auto simp: mset_insort_desc)

lemma mset_sort_values_desc: "mset (sort_values_desc s) = mset s"
  by (simp add: sort_values_desc_def mset_foldr_insort_desc)

lemma set_insort_desc: "set (insort_desc x ys) = insert x (set ys)"
  by (induction ys) auto

lemma set_foldr_insort_desc: "set (foldr insort_desc xs []) = set xs"
  by (induction xs) (auto simp: set_insort_desc)

lemma sorted_insort_desc:
  "sorted_wrt (\<lambda>x y. fle (snd y) (snd x)) ys \<Longrightarrow> \<not> isnan (snd x) \<Longrightarrow>
   \<forall>y\<in>set ys. \<not> isnan (snd y) \<Longrightarrow>
   sorted_wrt (\<lambda>x y. fle (snd y) (snd x)) (insort_desc x ys)"
proof (induction ys)
  case Nil
  then show ?case by simp
next
  case (Cons y ys)
  show ?case
  proof (cases "fle (snd y) (snd x)")
    case True
    have "\<forall>z\<in>set ys. fle (snd z) (snd x)"
      using Cons.prems True by (auto intro: fle_trans[of "snd y"])
    with True Cons.prems show ?thesis by simp
  next
    case False
    with Cons.prems have "fle (snd x) (snd y)" using fle_total[of "snd x" "snd y"] by auto
    with False Cons show ?thesis by (auto simp: set_insort_desc)
  qed
qed

lemma sorted_foldr_insort_desc:
  "\<forall>y\<in>set xs. \<not> isnan (snd y) \<Longrightarrow>
   sorted_wrt (\<lambda>x y. fle (snd y) (snd x)) (foldr insort_desc xs [])"
proof (induction xs)
  case Nil
  then show ?case by simp
next
  case (Cons x xs)
  then show ?case by (auto intro!: sorted_insort_desc simp: set_foldr_insort_desc)
qed

lemma sorted_sort_values_desc:
  "sorted_wrt (\<lambda>x y. desc (snd x) (snd y)) (sort_values_desc s)"
proof -
  let ?A = "filter (\<lambda>kv. \<not> isnan (snd kv)) s"
  let ?S = "foldr insort_desc ?A []"
  have "sorted_wrt (\<lambda>x y. fle (snd y) (snd x)) ?S"
    by (rule sorted_foldr_insort_desc) simp
  then have a: "sorted_wrt (\<lambda>x y. desc (snd x) (snd y)) ?S"
    by (rule sorted_wrt_mono_rel[rotated]) (auto simp: desc_def set_foldr_insort_desc)
  have b: "sorted_wrt (\<lambda>x y. desc (snd x) (snd y)) (filter (\<lambda>kv. isnan (snd kv)) s)"
    by (rule sorted_wrt_mono_rel[of _ "\<lambda>x y. True"]) (auto simp: desc_def)
  show ?thesis
    unfolding sort_values_desc_def sorted_wrt_append using a b by (auto simp: desc_def)
qed

text \<open>The sort is stable: the cells holding one value stand as in the table.\<close>

lemma filter_insort_desc:
  "\<not> isnan (snd x) \<Longrightarrow>
   filter (\<lambda>e. snd e = v) (insort_desc x ys) = filter (\<lambda>e. snd e = v) (x # ys)"
proof (induction ys)
  case Nil
  then show ?case by simp
next
  case (Cons y ys)
  show ?case
  proof (cases "fle (snd y) (snd x)")
    case True
    then show ?thesis by simp
  next
    case False
    have "\<not> (snd x = v \<and> snd y = v)" using False Cons.prems fle_refl[of "snd x"] by auto
    with False Cons show ?thesis by auto
  qed
qed

lemma filter_foldr_insort_desc:
  "\<forall>y\<in>set xs. \<not> isnan (snd y) \<Longrightarrow>
   filter (\<lambda>e. snd e = v) (foldr insort_desc xs []) = filter (\<lambda>e. snd e = v) xs"
  by (induction xs) (simp_all add: filter_insort_desc)

lemma filter_sort_values_desc:
  "filter (\<lambda>e. snd e = v) (sort_values_desc s) = filter (\<lambda>e. snd e = v) s"
proof (cases "v = NaN")
  case True
  have "filter (\<lambda>e. snd e = v) (filter (\<lambda>kv. \<not> isnan (snd kv)) s) = []"
    using True by (simp add: isnan_iff)
  moreover have "filter (\<lambda>e. snd e = v) (filter (\<lambda>kv. isnan (snd kv)) s) = filter (\<lambda>e. snd e = v) s"
    using True by (simp add: isnan_iff cong: conj_cong)
  ultimately show ?thesis
    by (simp add: sort_values_desc_def filter_foldr_insort_desc del: filter_filter)
next
  case False
  have "filter (\<lambda>e. snd e = v) (filter (\<lambda>kv. isnan (snd kv)) s) = []"
    using False by (auto simp: isnan_iff)
  moreover have "filter (\<lambda>e. snd e = v) (filter (\<lambda>kv. \<not> isnan (snd kv)) s) = filter (\<lambda>e. snd e = v) s"
    using False by (auto simp: isnan_iff intro: filter_cong)
  ultimately show ?thesis
    by (simp add: sort_values_desc_def filter_foldr_insort_desc del: filter_filter)
qed

lemma coef_of_entry:
  "distinct (map fst pearson) \<Longrightarrow> x \<in> set pearson \<Longrightarrow> coef pearson (fst x) = snd x"
  by (cases x) (simp add: coef_def)

lemma filter_coef_map_fst:
  assumes "distinct (map fst t)" and "set xs \<subseteq> set t"
  shows "filter (\<lambda>k. coef t k = v) (map fst xs) = map fst (filter (\<lambda>x. snd x = v) xs)"
proof -
  have "filter (\<lambda>x. coef t (fst x) = v) xs = filter (\<lambda>x. snd x = v) xs"
    by (rule filter_cong) (use assms coef_of_entry in auto)
  then show ?thesis by (simp add: filter_map o_def)
qed


lemma correlacionados_props:
  assumes p2: "0 \<le> p2" and dist: "distinct (map fst pearson)"
  defines "E \<equiv> filter (\<lambda>k. k \<notin> set out) (map fst pearson)"
  shows "set (correlacionados_of pearson p2) \<subseteq> set E"
    and "distinct (correlacionados_of pearson p2)"
    and "length (correlacionados_of pearson p2) = min (nat p2) (length E)"
    and "length E \<le> nat p2 \<Longrightarrow> set (correlacionados_of pearson p2) = set E"
    and "sorted_wrt (\<lambda>a b. desc (coef pearson a) (coef pearson b)) (correlacionados_of pearson p2)"
    and "\<forall>a\<in>set (correlacionados_of pearson p2). \<forall>b\<in>set E - set (correlacionados_of pearson p2).
           desc (coef pearson a) (coef pearson b)"
    and "\<exists>rest. filter (\<lambda>k. coef pearson k = v) E
           = filter (\<lambda>k. coef pearson k = v) (correlacionados_of pearson p2) @ rest"
proof -
  let ?S = "sort_values_desc pearson"
  let ?F = "filter (\<lambda>x. fst x \<notin> set out) ?S"
  let ?cs = "correlacionados_of pearson p2"
  let ?R = "\<lambda>x y. desc (snd x) (snd y)"
  let ?Q = "\<lambda>k. coef pearson k = v"
  have setS: "set ?S = set pearson" by (metis mset_sort_values_desc set_mset_mset)
  have "mset (map fst ?S) = mset (map fst pearson)" by (simp add: mset_sort_values_desc)
  with dist have distS: "distinct (map fst ?S)" by (metis mset_eq_imp_distinct_iff)
  have distF: "distinct (map fst ?F)" using distS by (rule distinct_map_filter)
  have cs: "?cs = map fst (take (nat p2) ?F)"
    using p2 by (simp add: correlacionados_of_def py_take_def filter_map o_def take_map)
  have setE: "set E = fst ` set pearson - set out" by (auto simp: E_def)
  have setF: "fst ` set ?F = set E" unfolding setE using setS by auto
  have "distinct E" unfolding E_def using dist by simp
  then have "length E = card (set E)" by (simp add: distinct_card)
  moreover have "length ?F = card (fst ` set ?F)"
    using distF by (metis distinct_card length_map set_map)
  ultimately have lenF: "length ?F = length E" using setF by simp
  show sub: "set ?cs \<subseteq> set E"
  proof
    fix a assume "a \<in> set ?cs"
    then obtain x where "x \<in> set (take (nat p2) ?F)" "a = fst x" unfolding cs by auto
    then have "a \<in> fst ` set ?F" by (metis in_set_takeD imageI)
    then show "a \<in> set E" unfolding setF .
  qed
  show "distinct ?cs"
    unfolding cs using distF by (simp add: take_map[symmetric] distinct_take)
  show "length ?cs = min (nat p2) (length E)"
    unfolding cs by (simp add: lenF min.commute)
  show "set ?cs = set E" if "length E \<le> nat p2"
  proof -
    from that have "take (nat p2) ?F = ?F" using lenF by simp
    then show ?thesis unfolding cs using setF by simp
  qed
  have sF: "sorted_wrt ?R ?F"
    by (rule sorted_wrt_filter) (rule sorted_sort_values_desc)
  then have "sorted_wrt ?R (take (nat p2) ?F @ drop (nat p2) ?F)" by simp
  then have sT: "sorted_wrt ?R (take (nat p2) ?F)"
    and cross: "\<forall>x\<in>set (take (nat p2) ?F). \<forall>y\<in>set (drop (nat p2) ?F). ?R x y"
    unfolding sorted_wrt_append by auto
  have inP: "\<And>x. x \<in> set ?F \<Longrightarrow> x \<in> set pearson" using setS by auto
  have cf: "\<And>x. x \<in> set ?F \<Longrightarrow> coef pearson (fst x) = snd x"
    using coef_of_entry[OF dist] inP by blast
  show "sorted_wrt (\<lambda>a b. desc (coef pearson a) (coef pearson b)) ?cs"
    unfolding cs sorted_wrt_map
  proof (rule sorted_wrt_mono_rel[OF _ sT])
    fix x y assume "x \<in> set (take (nat p2) ?F)" "y \<in> set (take (nat p2) ?F)"
      and r: "desc (snd x) (snd y)"
    then have "x \<in> set ?F" "y \<in> set ?F" by (auto dest: in_set_takeD)
    then have "coef pearson (fst x) = snd x" "coef pearson (fst y) = snd y" by (auto simp: cf)
    with r show "desc (coef pearson (fst x)) (coef pearson (fst y))" by simp
  qed
  show "\<forall>a\<in>set ?cs. \<forall>b\<in>set E - set ?cs. desc (coef pearson a) (coef pearson b)"
  proof (intro ballI)
    fix a b assume a: "a \<in> set ?cs" and b: "b \<in> set E - set ?cs"
    from a obtain x where x: "x \<in> set (take (nat p2) ?F)" "a = fst x" unfolding cs by auto
    from b have "b \<in> fst ` set ?F" and bn: "b \<notin> set ?cs" unfolding setF by simp_all
    then obtain y where y: "y \<in> set ?F" "b = fst y" by blast
    have "y \<notin> set (take (nat p2) ?F)"
    proof
      assume "y \<in> set (take (nat p2) ?F)"
      then have "fst y \<in> set ?cs" unfolding cs by simp
      with bn y(2) show False by simp
    qed
    moreover have "set ?F = set (take (nat p2) ?F) \<union> set (drop (nat p2) ?F)"
      unfolding set_append[symmetric] by simp
    ultimately have "y \<in> set (drop (nat p2) ?F)" using y(1) by blast
    with cross x(1) have r: "desc (snd x) (snd y)" by blast
    from x(1) have "x \<in> set ?F" by (rule in_set_takeD)
    then have "coef pearson (fst x) = snd x" by (rule cf)
    moreover have "coef pearson (fst y) = snd y" using y(1) by (rule cf)
    ultimately show "desc (coef pearson a) (coef pearson b)" using r x(2) y(2) by simp
  qed
  show "\<exists>rest. filter ?Q E = filter ?Q ?cs @ rest"
  proof -
    have subF: "set ?F \<subseteq> set pearson" using setS by auto
    have "filter ?Q (map fst ?F) = map fst (filter (\<lambda>x. snd x = v) ?F)"
      by (rule filter_coef_map_fst[OF dist subF])
    also have "filter (\<lambda>x. snd x = v) ?F
        = filter (\<lambda>x. fst x \<notin> set out) (filter (\<lambda>x. snd x = v) ?S)"
      by (simp add: conj_commute)
    also have "\<dots> = filter (\<lambda>x. fst x \<notin> set out) (filter (\<lambda>x. snd x = v) pearson)"
      by (simp only: filter_sort_values_desc)
    also have "\<dots> = filter (\<lambda>x. snd x = v) (filter (\<lambda>x. fst x \<notin> set out) pearson)"
      by (simp add: conj_commute)
    also have "map fst \<dots> = filter ?Q (map fst (filter (\<lambda>x. fst x \<notin> set out) pearson))"
      by (rule filter_coef_map_fst[OF dist, symmetric]) auto
    also have "map fst (filter (\<lambda>x. fst x \<notin> set out) pearson) = E"
      by (simp add: E_def filter_map o_def)
    finally have e: "filter ?Q (map fst ?F) = filter ?Q E" .
    have "map fst ?F = ?cs @ map fst (drop (nat p2) ?F)"
      unfolding cs by (simp add: map_append[symmetric] del: map_append)
    then have "filter ?Q (map fst ?F) = filter ?Q ?cs @ filter ?Q (map fst (drop (nat p2) ?F))"
      by (metis filter_append)
    with e show ?thesis by metis
  qed
qed

lemma pearson_ref_Inr:
  "lookup dat ref = Inr rcol \<Longrightarrow>
   pearson_ref dat ref = Inr (map (\<lambda>kc. (fst kc, corr (snd kc) rcol)) dat)"
  by (simp add: pearson_ref_def ebind_def)

lemma coef_pearson:
  "lookup dat k = Inr c \<Longrightarrow> coef (map (\<lambda>kc. (fst kc, corr (snd kc) rcol)) dat) k = corr c rcol"
  by (induction dat) (auto simp: coef_def lookup_def split: option.splits if_splits)

lemma correlacionados_of_all:
  assumes "0 \<le> p2" "0 \<le> p2'"
    and "length (filter (\<lambda>k. k \<notin> set out) (map fst (sort_values_desc pearson))) \<le> nat p2"
    and "length (filter (\<lambda>k. k \<notin> set out) (map fst (sort_values_desc pearson))) \<le> nat p2'"
  shows "correlacionados_of pearson p2 = correlacionados_of pearson p2'"
  using assms by (simp add: correlacionados_of_def py_take_def)


lemma ebind_return: "ebind (Inr v) f = f v"
  by (simp add: ebind_def)

lemma length_filter_sorted:
  "length (filter P (map fst (sort_values_desc s))) = length (filter P (map fst s))"
proof -
  have "mset (filter P (map fst (sort_values_desc s))) = mset (filter P (map fst s))"
    by (simp add: mset_sort_values_desc)
  then show ?thesis by (metis size_mset)
qed

text \<open>
  C7.  When \<open>ref\<close> is a column of \<open>data\<close>, the labels of \<open>data\<close> are distinct
  and \<open>p2\<close> is not negative, the selection returns: the coefficient of every region is
  its Pearson coefficient with the column of \<open>ref\<close>; the comparators are eligible
  regions (none of the four cuts of \<open>out\<close>), without repetition; they are \<open>p2\<close>
  many, or all the eligible regions when these are fewer; they stand in descending order
  of their coefficient (NaN last), no eligible region left out stands before a selected
  one, and among regions of equal coefficient the first of the table are taken, in table
  order.  They are the comparators of every run of \<open>rodar_modelo\<close> that returns, and
  with fewer eligible regions than \<open>p2\<close> the run is the run whose count is the number
  of eligible regions: nothing is raised for the shortfall.
\<close>

theorem comparators_top_k:
  assumes rc: "lookup dat ref = Inr rcol" and p2: "0 \<le> p2" and dist: "distinct (map fst dat)"
  shows "\<exists>pearson cs. pearson_ref dat ref = Inr pearson \<and> cs = correlacionados_of pearson p2
       \<and> (\<forall>k c. lookup dat k = Inr c \<longrightarrow> coef pearson k = corr c rcol)
       \<and> set cs \<subseteq> set (elegiveis dat) \<and> set cs \<inter> set out = {} \<and> distinct cs
       \<and> length cs = min (nat p2) (length (elegiveis dat))
       \<and> (length (elegiveis dat) \<le> nat p2 \<longrightarrow> set cs = set (elegiveis dat))
       \<and> sorted_wrt (\<lambda>a b. desc (coef pearson a) (coef pearson b)) cs
       \<and> (\<forall>a\<in>set cs. \<forall>b\<in>set (elegiveis dat) - set cs. desc (coef pearson a) (coef pearson b))
       \<and> (\<forall>v. \<exists>rest. filter (\<lambda>k. coef pearson k = v) (elegiveis dat)
                         = filter (\<lambda>k. coef pearson k = v) cs @ rest)
       \<and> (\<forall>raw inicio n popu popuBR por100k p3 now m.
             rodar_modelo raw inicio dat n popu popuBR por100k p2 p3 ref now = Inr m
             \<longrightarrow> correlacionados_r m = cs)
       \<and> (length (elegiveis dat) \<le> nat p2 \<longrightarrow>
            (\<forall>raw inicio n popu popuBR por100k p3 now.
               rodar_modelo raw inicio dat n popu popuBR por100k p2 p3 ref now
               = rodar_modelo raw inicio dat n popu popuBR por100k
                   (int (length (elegiveis dat))) p3 ref now))"
proof -
  let ?P = "map (\<lambda>kc. (fst kc, corr (snd kc) rcol)) dat"
  let ?cs = "correlacionados_of ?P p2"
  let ?E = "elegiveis dat"
  have pr: "pearson_ref dat ref = Inr ?P" by (rule pearson_ref_Inr[OF rc])
  have keys: "map fst ?P = map fst dat" by (simp add: o_def)
  have distP: "distinct (map fst ?P)" unfolding keys by (rule dist)
  have E: "filter (\<lambda>k. k \<notin> set out) (map fst ?P) = ?E" unfolding keys elegiveis_def ..
  note props = correlacionados_props[OF p2 distP, unfolded E]
  have c1: "\<forall>k c. lookup dat k = Inr c \<longrightarrow> coef ?P k = corr c rcol"
    by (simp add: coef_pearson)
  have c2: "set ?cs \<inter> set out = {}" using props(1) by (auto simp: elegiveis_def)
  have c3: "length ?E \<le> nat p2 \<longrightarrow> set ?cs = set ?E" using props(4) by simp
  have c4: "\<forall>v. \<exists>rest. filter (\<lambda>k. coef ?P k = v) ?E = filter (\<lambda>k. coef ?P k = v) ?cs @ rest"
    using props(7) by simp
  have c5: "\<forall>raw inicio n popu popuBR por100k p3 now m.
             rodar_modelo raw inicio dat n popu popuBR por100k p2 p3 ref now = Inr m
             \<longrightarrow> correlacionados_r m = ?cs"
    by (auto simp: rodar_modelo_def pr ebind_Inr Let_def)
  have c6: "length ?E \<le> nat p2 \<longrightarrow>
            (\<forall>raw inicio n popu popuBR por100k p3 now.
               rodar_modelo raw inicio dat n popu popuBR por100k p2 p3 ref now
               = rodar_modelo raw inicio dat n popu popuBR por100k (int (length ?E)) p3 ref now)"
  proof (intro impI allI)
    fix raw inicio n popu popuBR por100k p3 now
    assume le: "length ?E \<le> nat p2"
    have l: "length (filter (\<lambda>k. k \<notin> set out) (map fst (sort_values_desc ?P))) = length ?E"
      unfolding length_filter_sorted E ..
    have "?cs = correlacionados_of ?P (int (length ?E))"
      by (rule correlacionados_of_all) (use p2 le l in simp_all)
    then show "rodar_modelo raw inicio dat n popu popuBR por100k p2 p3 ref now
               = rodar_modelo raw inicio dat n popu popuBR por100k (int (length ?E)) p3 ref now"
      by (simp add: rodar_modelo_def pr ebind_return Let_def)
  qed
  show ?thesis
    apply (rule exI[of _ ?P])
    apply (rule exI[of _ ?cs])
    apply (intro conjI)
    apply (rule pr)
    apply (rule refl)
    apply (rule c1)
    apply (rule props(1))
    apply (rule c2)
    apply (rule props(2))
    apply (rule props(3))
    apply (rule c3)
    apply (rule props(5))
    apply (rule props(6))
    apply (rule c4)
    apply (rule c5)
    apply (rule c6)
    done
qed

theorem comparators_top_k_witness:
  "pearson_ref (data_t ex_pr) ''SP'' = Inr ex_pearson_t
   \<and> elegiveis (data_t ex_pr) = [''Italy'']
   \<and> correlacionados_of ex_pearson_t 5 = [''Italy'']
   \<and> rodar_modelo ex_raw (inicio_t ex_pr) (data_t ex_pr) 2 ex_popu (popuBR_t ex_pr)
        (por100k_t ex_pr) 5 2 ''SP'' 0 = Inr (ex_m 0)
   \<and> rodar_modelo ex_raw (inicio_t ex_pr) (data_t ex_pr) 2 ex_popu (popuBR_t ex_pr)
        (por100k_t ex_pr) 1 2 ''SP'' 0 = Inr (ex_m 0)
   \<and> pearson_ref ex6_dat ''SP'' = Inr ex6_pearson
   \<and> correlacionados_of ex6_pearson 1 = [''Italy'']
   \<and> correlacionados_of ex6_pearson 2 = [''Italy'', ''Spain'']
   \<and> correlacionados_of ex6_pearson 5 = [''Italy'', ''Spain'', ''Iran'']"
proof -
  have r: "lookup (data_t ex_pr) ''SP'' = Inr [2, 4]" by (simp add: ex_pr_def lookup_def)
  have a: "(0::int) \<le> 5" by simp
  have d: "distinct (map fst (data_t ex_pr))" by (simp add: ex_pr_def)
  have e: "elegiveis (data_t ex_pr) = [''Italy'']" by (simp add: elegiveis_def ex_pr_def out_def)
  have p6: "pearson_ref ex6_dat ''SP'' = Inr ex6_pearson"
    by (simp add: pearson_ref_def ex6_dat_def ex6_pearson_def lookup_def ebind_def corr_def
        mean_def Let_def)
  have c: "correlacionados_of ex6_pearson 1 = [''Italy'']"
    "correlacionados_of ex6_pearson 2 = [''Italy'', ''Spain'']"
    "correlacionados_of ex6_pearson 5 = [''Italy'', ''Spain'', ''Iran'']"
    by (simp_all add: correlacionados_of_def ex6_pearson_def sort_values_desc_def py_take_def
        out_def)
  show ?thesis
    using comparators_top_k [OF r a d] ex_pearson ex_cs ex_rodar [of 0] e p6 c
    by simp
qed

subsection \<open>Summary of the peak\<close>

lemma array_max_Inr: "array_max xs = Inr m \<longleftrightarrow> xs \<noteq> [] \<and> m = Max (set xs)"
proof (cases xs)
  case Nil
  then show ?thesis by (simp add: array_max_def)
next
  case (Cons a list)
  have "fold max list a = Max (set (a # list))" by (rule Max.set_eq_fold[symmetric])
  with Cons show ?thesis by (auto simp: array_max_def)
qed

lemma feq_Fin: "feq a (Fin p) \<longleftrightarrow> a = Fin p"
  by (cases a) auto

lemma list_index_Inr:
  "list_index xs v = Inr i \<Longrightarrow> i < length xs \<and> feq (xs ! i) v \<and> (\<forall>j<i. \<not> feq (xs ! j) v)"
proof (induction xs arbitrary: i)
  case Nil
  then show ?case by simp
next
  case (Cons a xs)
  show ?case
  proof (cases "feq a v")
    case True
    with Cons.prems show ?thesis by simp
  next
    case False
    with Cons.prems obtain i' where i': "list_index xs v = Inr i'" "i = Suc i'"
      by (auto simp: ebind_Inr)
    from Cons.IH[OF i'(1)] False i'(2) show ?thesis
      by (auto simp: nth_Cons split: nat.splits)
  qed
qed

lemma py_int_Inr: "py_int v = Inr k \<longleftrightarrow> (\<exists>r. v = Fin r \<and> k = trunc r)"
  by (cases v) auto

lemma nan_to_num_eq:
  "nan_to_num v = p \<Longrightarrow> 0 < p \<Longrightarrow> v \<noteq> PInf \<Longrightarrow> v = Fin p"
  by (cases v) (auto simp: DBL_MAX_def)

text \<open>
  C8 (as amended).  Whenever the summary is returned, the peak value is the maximum of the
  series with NaN read as zero (an infinite entry as the largest float of its sign), so it
  is at least every entry so read; the peak index is the first index whose entry is equal
  to the peak value, which is the first index attaining the maximum when the peak is
  positive and no entry is infinite; the deaths at peak are the peak value times the
  population of the reference divided by 100000, cut to an integer towards zero.
\<close>

theorem peak_summary:
  assumes "infos_of proj popuBR ref n now = Inr info"
  shows "pico info = Max (set (map nan_to_num proj))
       \<and> (\<forall>v\<in>set proj. nan_to_num v \<le> pico info)
       \<and> index info < length proj \<and> proj ! index info = Fin (pico info)
       \<and> (\<forall>j<index info. proj ! j \<noteq> Fin (pico info))
       \<and> (0 < pico info \<and> PInf \<notin> set proj \<longrightarrow> index info = peak_index_spec proj)
       \<and> (\<exists>pop r. lookup popuBR ref = Inr pop
             \<and> fdiv (fmul (Fin (pico info)) pop) (Fin 100000) = Fin r
             \<and> mortes_no_pico info = trunc r)"
proof -
  let ?zs = "map nan_to_num proj"
  from assms obtain pk pop mortes ix where
    mx: "array_max ?zs = Inr pk" and pop: "lookup popuBR ref = Inr pop"
    and mo: "py_int (fdiv (fmul (Fin pk) pop) (Fin 100000)) = Inr mortes"
    and ix: "list_index proj (Fin pk) = Inr ix"
    and info: "info = \<lparr>mortes_no_pico = mortes, dia_do_pico = now + (int ix - int n),
          pico = pk, index = ix\<rparr>"
    by (auto simp: infos_of_def ebind_Inr)
  from mx have ne: "proj \<noteq> []" and pk: "pk = Max (set ?zs)"
    by (auto simp: array_max_Inr)
  have le: "\<forall>v\<in>set proj. nan_to_num v \<le> pk"
    unfolding pk by (auto intro!: Max_ge)
  from list_index_Inr[OF ix] have i1: "ix < length proj" and i2: "proj ! ix = Fin pk"
    and i3: "\<forall>j<ix. proj ! j \<noteq> Fin pk" by (auto simp: feq_Fin)
  have spec: "0 < pk \<and> PInf \<notin> set proj \<longrightarrow> ix = peak_index_spec proj"
  proof
    assume a: "0 < pk \<and> PInf \<notin> set proj"
    have "takeWhile (\<lambda>v. v \<noteq> pk) ?zs = take ix ?zs"
    proof (rule takeWhile_eq_take_P_nth)
      fix j assume j: "j < ix" "j < length ?zs"
      show "?zs ! j \<noteq> pk"
      proof
        assume e: "?zs ! j = pk"
        from j have m: "proj ! j \<in> set proj" by simp
        with a have "proj ! j \<noteq> PInf" by metis
        with e j a have "proj ! j = Fin pk" by (simp add: nan_to_num_eq)
        with i3 j show False by simp
      qed
    next
      assume "ix < length ?zs"
      with i2 show "\<not> ?zs ! ix \<noteq> pk" by simp
    qed
    then have "length (takeWhile (\<lambda>v. v \<noteq> pk) ?zs) = ix" using i1 by simp
    then show "ix = peak_index_spec proj"
      unfolding peak_index_spec_def Let_def pk by simp
  qed
  from mo obtain r where r: "fdiv (fmul (Fin pk) pop) (Fin 100000) = Fin r" "mortes = trunc r"
    by (auto simp: py_int_Inr)
  show ?thesis
    unfolding info using pk le i1 i2 i3 spec pop r by simp
qed

theorem peak_summary_witness:
  "infos_of [NaN, Fin 7500, Fin (28125 / 2)] (popuBR_t ex_pr) ''SP'' 2 0 =
     Inr \<lparr>mortes_no_pico = 5, dia_do_pico = 0, pico = 28125 / 2, index = 2\<rparr>
   \<and> Max (set (map nan_to_num [NaN, Fin 7500, Fin (28125 / 2)])) = 28125 / 2
   \<and> peak_index_spec [NaN, Fin 7500, Fin (28125 / 2)] = 2"
  using peak_summary [OF ex_infos [of 0]] ex_infos [of 0]
  by simp

text \<open>
  C8 as stated fails: on the series NaN, 0 the maximum with NaN read as zero is attained at
  index 0, and the index returned is 1.
\<close>

theorem peak_index_counterexample:
  "infos_of [NaN, Fin 0] [(''SP'', Fin 40)] ''SP'' 2 0 =
     Inr \<lparr>mortes_no_pico = 0, dia_do_pico = - 1, pico = 0, index = 1\<rparr>
   \<and> peak_index_spec [NaN, Fin 0] = 0"
  by (simp add: infos_of_def array_max_def lookup_def ebind_def trunc_def peak_index_spec_def)

end
